theory Spec2Isabelle
  imports Main "HOL-Library.Char_ord" "HOL-Library.List_Lexorder" "HOL-Library.Option_ord"
    "HOL-Library.Multiset"
begin

section \<open>Python strings\<close>

text \<open>
  A Python \<open>str\<close> is a sequence of code points. It is modelled as a \<open>string\<close> whose
  characters are the code points themselves (\<open>of_char c\<close>), which covers the code points
  below 256. \<open>isspace\<close> and \<open>isdigit\<close> are the built-in predicates restricted to that range.
\<close>

definition isspace :: "char \<Rightarrow> bool" where
  \<comment> \<open>\<open>str.isspace\<close>, the set \<open>str.strip()\<close> removes: TAB..CR, FS..US, space, NEL, NBSP.\<close>
  "isspace c =
     (let n = (of_char c :: nat)
      in (9 \<le> n \<and> n \<le> 13) \<or> (28 \<le> n \<and> n \<le> 32) \<or> n = 133 \<or> n = 160)"

definition isdigit :: "char \<Rightarrow> bool" where
  \<comment> \<open>\<open>str.isdigit\<close>: the decimal digits 0..9 and the superscript digits two, three, one.\<close>
  "isdigit c =
     (let n = (of_char c :: nat)
      in (48 \<le> n \<and> n \<le> 57) \<or> n = 178 \<or> n = 179 \<or> n = 185)"

definition decimal_digit :: "char \<Rightarrow> bool" where
  \<comment> \<open>The characters \<open>0\<close> to \<open>9\<close>.\<close>
  "decimal_digit c = (let n = (of_char c :: nat) in 48 \<le> n \<and> n \<le> 57)"

definition strip :: "string \<Rightarrow> string" where
  \<comment> \<open>\<open>s.strip()\<close>: leading and trailing whitespace removed.\<close>
  "strip s = rev (dropWhile isspace (rev (dropWhile isspace s)))"

definition or_empty :: "string option \<Rightarrow> string" where
  \<comment> \<open>\<open>x or ""\<close> for \<open>x\<close> a \<open>str\<close> or \<open>None\<close>.\<close>
  "or_empty x = (case x of None \<Rightarrow> [] | Some s \<Rightarrow> s)"

subsection \<open>\<open>int(s)\<close> on a string\<close>

text \<open>
  \<open>int(s)\<close> in base 10: whitespace, an optional sign, decimal digits with single
  underscores between them, whitespace. Anything else raises \<open>ValueError\<close>, here \<open>None\<close>.
  The whitespace \<open>int\<close> skips is TAB..CR and space, and the non-ASCII spaces NEL and NBSP
  (which it first maps to a space); unlike \<open>strip\<close> it does not skip FS..US.
  The interpreter refuses a literal of more than \<open>lim\<close> digits when \<open>lim > 0\<close>
  (\<open>sys.get_int_max_str_digits()\<close>, 4300 by default where the limit exists, 0 where it is
  switched off or absent).
\<close>

definition int_space :: "char \<Rightarrow> bool" where
  "int_space c =
     (let n = (of_char c :: nat)
      in (9 \<le> n \<and> n \<le> 13) \<or> n = 32 \<or> n = 133 \<or> n = 160)"

fun scan_digits :: "int \<Rightarrow> nat \<Rightarrow> bool \<Rightarrow> string \<Rightarrow> (int \<times> nat \<times> string) option" where
  \<comment> \<open>value so far, digits seen, whether the previous character was an underscore\<close>
  "scan_digits acc n prev [] = (if prev then None else Some (acc, n, []))"
| "scan_digits acc n prev (c # cs) =
     (if decimal_digit c
        then scan_digits (10 * acc + (int (of_char c) - 48)) (Suc n) False cs
      else if c = CHR ''_''
        then (if prev then None else scan_digits acc n True cs)
      else (if prev then None else Some (acc, n, c # cs)))"

definition int_str :: "nat \<Rightarrow> string \<Rightarrow> int option" where
  "int_str lim s =
     (let s1 = dropWhile int_space s;
          sign = (case s1 of c # _ \<Rightarrow> if c = CHR ''-'' then - 1 else (1::int) | [] \<Rightarrow> 1);
          s2 = (case s1 of c # cs \<Rightarrow> if c = CHR ''+'' \<or> c = CHR ''-'' then cs else s1 | [] \<Rightarrow> [])
      in case s2 of
           [] \<Rightarrow> None
         | c # _ \<Rightarrow>
             if c = CHR ''_'' then None
             else (case scan_digits 0 0 False s2 of
                     None \<Rightarrow> None
                   | Some (v, n, rest) \<Rightarrow>
                       if n = 0 then None
                       else if 0 < lim \<and> lim < n then None
                       else if dropWhile int_space rest \<noteq> [] then None
                       else Some (sign * v)))"

section \<open>Utils\<close>

definition normalize_phone :: "string \<Rightarrow> string" where
  \<comment> \<open>\<open>"".join(ch for ch in (p or "") if ch.isdigit() or ch == "+")\<close>; \<open>p or ""\<close> is \<open>p\<close> for a \<open>str\<close>.\<close>
  "normalize_phone p = filter (\<lambda>ch. isdigit ch \<or> ch = CHR ''+'') p"

definition utc_str_to_et :: "(string \<Rightarrow> string option) \<Rightarrow> string \<Rightarrow> string option" where
  \<comment> \<open>\<open>to_et\<close> stands for \<open>strptime\<close>, the zone conversion and \<open>strftime\<close>; \<open>None\<close> is the
     \<open>ValueError\<close> of \<open>strptime\<close> on a string that is not \<open>YYYY-MM-DD HH:MM:SS\<close>.\<close>
  "utc_str_to_et to_et ts = (if ts = [] then Some [] else to_et ts)"

section \<open>The state of the application\<close>

text \<open>
  One row of the table \<open>waitlist\<close>. The columns declared without \<open>NOT NULL\<close> are options;
  \<open>rowid\<close> is the column \<open>id\<close> (an \<open>INTEGER PRIMARY KEY\<close>), \<open>notes_col\<close> the column
  \<open>notes\<close>; \<open>status\<close> is the text the column holds.
\<close>

record entry =
  rowid :: int
  name :: string
  phone :: string
  seats :: int
  notes_col :: "string option"
  status :: string
  requesttime :: string
  requested_at :: "string option"
  assigned_at :: "string option"
  seated_at :: "string option"
  deleted_at :: "string option"

text \<open>
  What a request sees: whether \<open>g._db\<close> is set in the current application context, the
  session of the client (the key \<open>is_admin\<close>; flashed messages are not modelled), the table
  \<open>settings\<close> (key to nullable value) and the table \<open>waitlist\<close> in insertion order. The
  table \<open>waitlist\<close> is taken to exist with its lifecycle columns, as \<open>get_db\<close> leaves it on
  a database this program created.
\<close>

record world =
  g_db :: bool
  session :: "string \<rightharpoonup> bool"
  settings :: "string \<rightharpoonup> string option"
  waitlist :: "entry list"

text \<open>
  What the program takes from its surroundings: the environment variable \<open>ADMIN_PIN\<close>,
  werkzeug's two password functions (the hash is salted, so any function may stand for
  it), SQLite's \<open>datetime()\<close> (\<open>None\<close> is SQL \<open>NULL\<close>), the interpreter's limit on the digits
  of an integer literal, and the conversion behind \<open>utc_str_to_et\<close>.

  \<open>tie_rank\<close> stands for the plan SQLite picks for an \<open>ORDER BY\<close> statement. SQLite leaves
  the order of rows with equal sort keys open: it follows from the way the plan walks
  the table (on the schema of this program the statements of \<open>home\<close> and \<open>api_waitlist\<close>
  go through the index on \<open>status\<close> and meet \<open>ASSIGNING\<close> rows before \<open>WAITING\<close> rows; the
  statement of \<open>waitlist_admin\<close> walks the table). \<open>tie_rank e view table r\<close> is the rank of
  the row \<open>r\<close> of \<open>table\<close> in the walk of the statement of \<open>view\<close>; any function may stand
  for it.
\<close>

record env =
  ADMIN_PIN :: "string option"
  generate_password_hash :: "string \<Rightarrow> string"
  check_password_hash :: "string \<Rightarrow> string \<Rightarrow> bool"
  datetime :: "string \<Rightarrow> string option"
  int_max_str_digits :: nat
  to_et :: "string \<Rightarrow> string option"
  tie_rank :: "string \<Rightarrow> entry list \<Rightarrow> entry \<Rightarrow> nat"

datatype error = OverflowError | OperationalError | AttributeError | ValueError

record panel_item =
  row :: entry
  timer_start_utc :: string
  requesttime_et :: string

datatype response = Redirect string | Render string "entry list" | Json "panel_item list"

type_synonym result = "(error + response) \<times> world"

section \<open>DB\<close>

definition ensure_display_default ::
  "(string \<rightharpoonup> string option) \<Rightarrow> (string \<rightharpoonup> string option)" where
  \<comment> \<open>\<open>INSERT OR IGNORE INTO settings(key,value) VALUES('display_mode','open')\<close>\<close>
  "ensure_display_default s =
     (if s ''display_mode'' = None then s(''display_mode'' \<mapsto> Some ''open'') else s)"

definition ensure_admin_pin ::
  "env \<Rightarrow> (string \<rightharpoonup> string option) \<Rightarrow> (string \<rightharpoonup> string option)" where
  "ensure_admin_pin e s =
     (let row = s ''admin_pin_hash''
      in if (case row of None \<Rightarrow> True | Some None \<Rightarrow> True | Some (Some v) \<Rightarrow> v = [])
         then let pin = strip (case ADMIN_PIN e of None \<Rightarrow> ''123456'' | Some p \<Rightarrow> p);
                  h = generate_password_hash e pin
              in s(''admin_pin_hash'' \<mapsto> Some h)
         else s)"

definition get_db :: "env \<Rightarrow> world \<Rightarrow> world" where
  \<comment> \<open>Opens the connection once per application context and then makes sure of the
     settings; the statements on the schema leave the rows as they are.\<close>
  "get_db e w =
     (if g_db w then w
      else w\<lparr>g_db := True,
             settings := ensure_admin_pin e (ensure_display_default (settings w))\<rparr>)"

definition sqlite_int64 :: "int \<Rightarrow> bool" where
  \<comment> \<open>The integers the \<open>sqlite3\<close> module binds to a parameter; any other \<open>int\<close> raises
     \<open>OverflowError\<close>.\<close>
  "sqlite_int64 n = (- (2 ^ 63) \<le> n \<and> n < 2 ^ 63)"

definition next_rowid :: "entry list \<Rightarrow> int option" where
  \<comment> \<open>\<open>AUTOINCREMENT\<close>: one more than the largest id used (rows are never removed, so that is
     the largest id in the table); the insert fails once the largest id is \<open>2^63 - 1\<close>.\<close>
  "next_rowid rows =
     (let m = fold max (map rowid rows) 0
      in if m < 2 ^ 63 - 1 then Some (m + 1) else None)"

section \<open>Settings helpers\<close>

definition get_setting :: "env \<Rightarrow> string \<Rightarrow> string \<Rightarrow> world \<Rightarrow> string \<times> world" where
  \<comment> \<open>\<open>row["value"] if row and row["value"] is not None else default\<close>\<close>
  "get_setting e key dflt w =
     (let w1 = get_db e w
      in (case settings w1 key of
            None \<Rightarrow> dflt
          | Some None \<Rightarrow> dflt
          | Some (Some v) \<Rightarrow> v,
          w1))"

definition set_setting :: "env \<Rightarrow> string \<Rightarrow> string \<Rightarrow> world \<Rightarrow> world" where
  \<comment> \<open>\<open>INSERT ... ON CONFLICT(key) DO UPDATE SET value=excluded.value\<close>\<close>
  "set_setting e key val w =
     (let w1 = get_db e w in w1\<lparr>settings := (settings w1)(key \<mapsto> Some val)\<rparr>)"

section \<open>Auth helpers\<close>

definition is_admin :: "world \<Rightarrow> bool" where
  \<comment> \<open>\<open>bool(session.get("is_admin"))\<close>\<close>
  "is_admin w = (case session w ''is_admin'' of None \<Rightarrow> False | Some b \<Rightarrow> b)"

definition admin_required :: "(world \<Rightarrow> result) \<Rightarrow> world \<Rightarrow> result" where
  "admin_required view w =
     (if \<not> is_admin w then (Inr (Redirect ''admin_login''), w) else view w)"

section \<open>Pages\<close>

definition order_by :: "env \<Rightarrow> string \<Rightarrow> entry list \<Rightarrow> entry list \<Rightarrow> entry list" where
  \<comment> \<open>\<open>ORDER BY datetime(requesttime) ASC\<close> over the selected rows \<open>sel\<close> of \<open>table\<close>: \<open>NULL\<close>
     sorts first; rows with equal keys come in the order of their \<open>tie_rank\<close>, and rows
     that agree on that too in the table's order.\<close>
  "order_by e view table sel =
     sort_key (\<lambda>r. datetime e (requesttime r)) (sort_key (tie_rank e view table) sel)"

definition active_query :: "env \<Rightarrow> string \<Rightarrow> entry list \<Rightarrow> entry list" where
  \<comment> \<open>\<open>SELECT ... WHERE status IN ('WAITING','ASSIGNING') AND deleted_at IS NULL
     ORDER BY datetime(requesttime) ASC LIMIT 100\<close>, the statement of \<open>home\<close> and of
     \<open>api_waitlist\<close>; \<open>view\<close> is the one that runs it.\<close>
  "active_query e view rows =
     take 100
       (order_by e view rows
          (filter (\<lambda>r. (status r = ''WAITING'' \<or> status r = ''ASSIGNING'') \<and> deleted_at r = None)
             rows))"

definition all_query :: "env \<Rightarrow> entry list \<Rightarrow> entry list" where
  \<comment> \<open>\<open>SELECT * FROM waitlist WHERE deleted_at IS NULL ORDER BY datetime(requesttime) ASC\<close>\<close>
  "all_query e rows =
     order_by e ''waitlist_admin'' rows (filter (\<lambda>r. deleted_at r = None) rows)"

definition home :: "env \<Rightarrow> world \<Rightarrow> result" where
  "home e w =
     (let (mode, w1) = get_setting e ''display_mode'' ''open'' w;
          w2 = (if mode = ''waitlist'' then get_db e w1 else w1);
          rows = (if mode = ''waitlist'' then active_query e ''home'' (waitlist w2) else [])
      in (Inr (Render ''home.html'' rows), w2))"

definition add_waitlist_submit ::
  "env \<Rightarrow> string \<Rightarrow> string option \<Rightarrow> string option \<Rightarrow> string option \<Rightarrow> string option \<Rightarrow>
   world \<Rightarrow> result" where
  \<comment> \<open>\<open>now_utc\<close> is what \<open>utc_now_str()\<close> returns; the four options are
     \<open>request.form.get\<close> of \<open>name\<close>, \<open>phone\<close>, \<open>notes\<close> and \<open>seats\<close>. \<open>cur.execute\<close> raises
     \<open>OverflowError\<close> when \<open>seats\<close> is no 64-bit integer, and \<open>OperationalError\<close> when the
     table has no id left; the exception leaves the view before \<open>db.commit()\<close>.\<close>
  "add_waitlist_submit e now_utc f_name f_phone f_notes f_seats w =
     (let name1 = strip (or_empty f_name);
          phone1 = normalize_phone (or_empty f_phone);
          notes1 = strip (or_empty f_notes);
          seats1 = (case f_seats of
                      None \<Rightarrow> 0
                    | Some s \<Rightarrow>
                        (case int_str (int_max_str_digits e) s of None \<Rightarrow> 0 | Some n \<Rightarrow> n))
      in if name1 = [] \<or> phone1 = [] \<or> seats1 \<le> 0
         then (Inr (Redirect ''add_waitlist_form''), w)
         else
           let w1 = get_db e w
           in if \<not> sqlite_int64 seats1 then (Inl OverflowError, w1)
              else (case next_rowid (waitlist w1) of
                      None \<Rightarrow> (Inl OperationalError, w1)
                    | Some i \<Rightarrow>
                        (Inr (Redirect ''home''),
                         w1\<lparr>waitlist := waitlist w1 @
                              [\<lparr>rowid = i, name = name1, phone = phone1, seats = seats1,
                                notes_col = Some notes1, status = ''WAITING'',
                                requesttime = now_utc, requested_at = Some now_utc,
                                assigned_at = None, seated_at = None, deleted_at = None\<rparr>]\<rparr>)))"

section \<open>Admin-only pages\<close>

definition waitlist_admin :: "env \<Rightarrow> world \<Rightarrow> result" where
  "waitlist_admin e =
     admin_required
       (\<lambda>w. let w1 = get_db e w
            in (Inr (Render ''waitlist_admin.html'' (all_query e (waitlist w1))), w1))"

definition update_where :: "int \<Rightarrow> (entry \<Rightarrow> entry) \<Rightarrow> entry list \<Rightarrow> entry list" where
  \<comment> \<open>\<open>UPDATE waitlist SET ... WHERE id=? AND deleted_at IS NULL\<close>\<close>
  "update_where item_id upd rows =
     map (\<lambda>r. if rowid r = item_id \<and> deleted_at r = None then upd r else r) rows"

definition assign_set :: "string \<Rightarrow> entry \<Rightarrow> entry" where
  \<comment> \<open>\<open>SET status='ASSIGNING', assigned_at = ?\<close>\<close>
  "assign_set now_utc r = r\<lparr>status := ''ASSIGNING'', assigned_at := Some now_utc\<rparr>"

definition seated_set :: "string \<Rightarrow> entry \<Rightarrow> entry" where
  \<comment> \<open>\<open>SET status='SEATED', seated_at = COALESCE(seated_at, ?)\<close>\<close>
  "seated_set now_utc r =
     r\<lparr>status := ''SEATED'',
       seated_at := (case seated_at r of None \<Rightarrow> Some now_utc | Some t \<Rightarrow> Some t)\<rparr>"

definition delete_set :: "string \<Rightarrow> entry \<Rightarrow> entry" where
  \<comment> \<open>\<open>SET deleted_at = ?\<close>\<close>
  "delete_set now_utc r = r\<lparr>deleted_at := Some now_utc\<rparr>"

definition waitlist_assign :: "env \<Rightarrow> string \<Rightarrow> int \<Rightarrow> world \<Rightarrow> result" where
  "waitlist_assign e now_utc item_id =
     admin_required
       (\<lambda>w. let w1 = get_db e w
            in if \<not> sqlite_int64 item_id then (Inl OverflowError, w1)
               else (Inr (Redirect ''waitlist_admin''),
                     w1\<lparr>waitlist := update_where item_id (assign_set now_utc) (waitlist w1)\<rparr>))"

definition waitlist_seated :: "env \<Rightarrow> string \<Rightarrow> int \<Rightarrow> world \<Rightarrow> result" where
  "waitlist_seated e now_utc item_id =
     admin_required
       (\<lambda>w. let w1 = get_db e w
            in if \<not> sqlite_int64 item_id then (Inl OverflowError, w1)
               else (Inr (Redirect ''waitlist_admin''),
                     w1\<lparr>waitlist := update_where item_id (seated_set now_utc) (waitlist w1)\<rparr>))"

definition waitlist_delete :: "env \<Rightarrow> string \<Rightarrow> int \<Rightarrow> world \<Rightarrow> result" where
  "waitlist_delete e now_utc item_id =
     admin_required
       (\<lambda>w. let w1 = get_db e w
            in if \<not> sqlite_int64 item_id then (Inl OverflowError, w1)
               else (Inr (Redirect ''waitlist_admin''),
                     w1\<lparr>waitlist := update_where item_id (delete_set now_utc) (waitlist w1)\<rparr>))"

section \<open>Display mode controls\<close>

definition display_start :: "env \<Rightarrow> world \<Rightarrow> result" where
  "display_start e =
     admin_required
       (\<lambda>w. (Inr (Redirect ''waitlist_admin''), set_setting e ''display_mode'' ''waitlist'' w))"

definition display_stop :: "env \<Rightarrow> world \<Rightarrow> result" where
  "display_stop e =
     admin_required
       (\<lambda>w. (Inr (Redirect ''waitlist_admin''), set_setting e ''display_mode'' ''open'' w))"

section \<open>Admin auth\<close>

definition admin_login_post :: "env \<Rightarrow> string option \<Rightarrow> string option \<Rightarrow> world \<Rightarrow> result" where
  \<comment> \<open>The options are \<open>request.form.get\<close> of \<open>pin\<close> and \<open>next\<close>. A \<open>NULL\<close> hash would make
     \<open>check_password_hash\<close> raise on \<open>None\<close>.\<close>
  "admin_login_post e f_pin f_next w =
     (let pin = strip (or_empty f_pin);
          next_url = (if or_empty f_next = [] then ''waitlist_admin'' else or_empty f_next);
          w1 = get_db e w
      in case settings w1 ''admin_pin_hash'' of
           None \<Rightarrow> (Inr (Redirect ''admin_login''), w1)
         | Some None \<Rightarrow> (Inl AttributeError, w1)
         | Some (Some h) \<Rightarrow>
             if check_password_hash e h pin
             then (Inr (Redirect next_url), w1\<lparr>session := (session w1)(''is_admin'' \<mapsto> True)\<rparr>)
             else (Inr (Redirect ''admin_login''), w1))"

definition admin_logout :: "world \<Rightarrow> result" where
  \<comment> \<open>\<open>session.pop("is_admin", None)\<close>\<close>
  "admin_logout w = (Inr (Redirect ''home''), w\<lparr>session := (session w)(''is_admin'' := None)\<rparr>)"

section \<open>JSON for live panel\<close>

definition panel_of :: "env \<Rightarrow> entry \<Rightarrow> panel_item option" where
  \<comment> \<open>The body of the loop over the rows; \<open>None\<close> when \<open>utc_str_to_et\<close> raises.\<close>
  "panel_of e r =
     (let start_ts = (if status r = ''ASSIGNING'' \<and> assigned_at r \<noteq> None \<and> assigned_at r \<noteq> Some []
                      then or_empty (assigned_at r) else requesttime r);
          timer = (if start_ts = [] then requesttime r else start_ts) @ ''Z''
      in case utc_str_to_et (to_et e) (requesttime r) of
           None \<Rightarrow> None
         | Some et \<Rightarrow> Some \<lparr>row = r, timer_start_utc = timer, requesttime_et = et\<rparr>)"

fun panel_items :: "env \<Rightarrow> entry list \<Rightarrow> panel_item list option" where
  "panel_items e [] = Some []"
| "panel_items e (r # rs) =
     (case panel_of e r of
        None \<Rightarrow> None
      | Some d \<Rightarrow> (case panel_items e rs of None \<Rightarrow> None | Some out \<Rightarrow> Some (d # out)))"

definition api_waitlist :: "env \<Rightarrow> world \<Rightarrow> result" where
  \<comment> \<open>The statement selects seven columns of each row; an item of the model carries the
     whole row.\<close>
  "api_waitlist e w =
     (let w1 = get_db e w;
          rows = active_query e ''api_waitlist'' (waitlist w1)
      in case panel_items e rows of
           None \<Rightarrow> (Inl ValueError, w1)
         | Some out \<Rightarrow> (Inr (Json out), w1))"

section \<open>Requests\<close>

text \<open>
  The routes on the waiting list, the settings and the session, each with what the
  request carries. Flask gives every request an application context of its own, so
  \<open>g._db\<close> is unset when the view starts, and \<open>close_db\<close> closes the connection at the end.
\<close>

datatype request =
    Home
  | AddWaitlistSubmit "string option" "string option" "string option" "string option"
  | WaitlistAdmin
  | WaitlistAssign int
  | WaitlistSeated int
  | WaitlistDelete int
  | DisplayStart
  | DisplayStop
  | AdminLoginPost "string option" "string option"
  | AdminLogout
  | ApiWaitlist

fun view_of :: "env \<Rightarrow> string \<Rightarrow> request \<Rightarrow> world \<Rightarrow> result" where
  "view_of e now Home = home e"
| "view_of e now (AddWaitlistSubmit n p nt s) = add_waitlist_submit e now n p nt s"
| "view_of e now WaitlistAdmin = waitlist_admin e"
| "view_of e now (WaitlistAssign i) = waitlist_assign e now i"
| "view_of e now (WaitlistSeated i) = waitlist_seated e now i"
| "view_of e now (WaitlistDelete i) = waitlist_delete e now i"
| "view_of e now DisplayStart = display_start e"
| "view_of e now DisplayStop = display_stop e"
| "view_of e now (AdminLoginPost p n) = admin_login_post e p n"
| "view_of e now AdminLogout = admin_logout"
| "view_of e now ApiWaitlist = api_waitlist e"

definition serve :: "env \<Rightarrow> string \<Rightarrow> request \<Rightarrow> world \<Rightarrow> result" where
  "serve e now rq w =
     (let (r, w1) = view_of e now rq (w\<lparr>g_db := False\<rparr>) in (r, w1\<lparr>g_db := False\<rparr>))"

fun run :: "env \<Rightarrow> (string \<times> (string \<rightharpoonup> bool) \<times> request) list \<Rightarrow> world \<Rightarrow> world" where
  \<comment> \<open>A sequence of requests, each with the time it is served at and the session of the
     client that sends it.\<close>
  "run e [] w = w"
| "run e ((now, cookie, rq) # rest) w =
     run e rest (snd (serve e now rq (w\<lparr>session := cookie\<rparr>)))"

section \<open>Notions of the statements\<close>

fun rows_of :: "error + response \<Rightarrow> entry list" where
  \<comment> \<open>The waitlist rows a response shows.\<close>
  "rows_of (Inr (Render template rows)) = rows"
| "rows_of (Inr (Json out)) = map row out"
| "rows_of (Inr (Redirect target)) = []"
| "rows_of (Inl err) = []"

definition seats_of :: "env \<Rightarrow> string option \<Rightarrow> int" where
  \<comment> \<open>The value of \<open>seats\<close> after the \<open>try\<close> block of \<open>add_waitlist_submit\<close>.\<close>
  "seats_of e f_seats =
     (case f_seats of
        None \<Rightarrow> 0
      | Some s \<Rightarrow> (case int_str (int_max_str_digits e) s of None \<Rightarrow> 0 | Some n \<Rightarrow> n))"

definition new_entry :: "int \<Rightarrow> string \<Rightarrow> string \<Rightarrow> int \<Rightarrow> string \<Rightarrow> string \<Rightarrow> entry" where
  \<comment> \<open>The row of the \<open>INSERT\<close> of \<open>add_waitlist_submit\<close>.\<close>
  "new_entry i name1 phone1 seats1 notes1 now_utc =
     \<lparr>rowid = i, name = name1, phone = phone1, seats = seats1, notes_col = Some notes1,
      status = ''WAITING'', requesttime = now_utc, requested_at = Some now_utc,
      assigned_at = None, seated_at = None, deleted_at = None\<rparr>"

definition seeded_hash :: "env \<Rightarrow> string" where
  \<comment> \<open>The hash \<open>_ensure_admin_pin\<close> stores: of \<open>ADMIN_PIN\<close>, or of \<open>123456\<close>, stripped.\<close>
  "seeded_hash e =
     generate_password_hash e (strip (case ADMIN_PIN e of None \<Rightarrow> ''123456'' | Some p \<Rightarrow> p))"

definition is_active :: "entry \<Rightarrow> bool" where
  \<comment> \<open>An active entry: not deleted, with status \<open>WAITING\<close> or \<open>ASSIGNING\<close>.\<close>
  "is_active r = ((status r = ''WAITING'' \<or> status r = ''ASSIGNING'') \<and> deleted_at r = None)"

definition first_hundred :: "env \<Rightarrow> entry list \<Rightarrow> entry list \<Rightarrow> bool" where
  \<comment> \<open>\<open>shown\<close> holds 100 of the active entries of \<open>table\<close>, or all of them when they are
     fewer, and no active entry that is left out comes before a shown one in the order
     of the request time. Which of several entries with the same request time is shown
     is left open.\<close>
  "first_hundred e table shown =
     (length shown = min 100 (length (filter is_active table)) \<and>
      mset shown \<subseteq># mset (filter is_active table) \<and>
      (\<forall>r \<in># mset (filter is_active table) - mset shown. \<forall>s \<in> set shown.
         datetime e (requesttime s) \<le> datetime e (requesttime r)))"

definition table_step :: "string \<Rightarrow> entry list \<Rightarrow> entry list \<Rightarrow> bool" where
  \<comment> \<open>What a view does to the table: nothing, one of the three updates, or one new row.\<close>
  "table_step now rows rows' =
     (rows' = rows \<or>
      (\<exists>i. rows' = update_where i (assign_set now) rows) \<or>
      (\<exists>i. rows' = update_where i (seated_set now) rows) \<or>
      (\<exists>i. rows' = update_where i (delete_set now) rows) \<or>
      (\<exists>r. rows' = rows @ [r] \<and> status r = ''WAITING'' \<and> deleted_at r = None))"

definition spec_phone_format :: "string \<Rightarrow> bool" where
  \<comment> \<open>The data model's words: only digits and an optional leading \<open>+\<close>.\<close>
  "spec_phone_format s =
     (case s of
        [] \<Rightarrow> True
      | c # cs \<Rightarrow> (c = CHR ''+'' \<or> decimal_digit c) \<and> list_all decimal_digit cs)"

section \<open>Example values\<close>

definition env0 :: env where
  \<comment> \<open>Hashes in the clear, timestamps in the stored format, and the ties of SQLite's plans
     on this program's schema.\<close>
  "env0 =
     \<lparr>ADMIN_PIN = None,
      generate_password_hash = (\<lambda>pin. ''plain$'' @ pin),
      check_password_hash = (\<lambda>h pin. h = ''plain$'' @ pin),
      datetime = Some,
      int_max_str_digits = 4300,
      to_et = Some,
      tie_rank = (\<lambda>view table r.
        if view = ''waitlist_admin'' \<or> status r = ''ASSIGNING'' then 0 else 1)\<rparr>"

definition alice :: entry where
  "alice =
     \<lparr>rowid = 1, name = ''Alice'', phone = ''5551234'', seats = 2, notes_col = Some [],
      status = ''WAITING'', requesttime = ''2024-05-01 18:00:00'',
      requested_at = Some ''2024-05-01 18:00:00'', assigned_at = None, seated_at = None,
      deleted_at = None\<rparr>"

definition bob :: entry where
  "bob =
     \<lparr>rowid = 2, name = ''Bob'', phone = ''+15550000'', seats = 4, notes_col = Some ''window'',
      status = ''SEATED'', requesttime = ''2024-05-01 17:30:00'',
      requested_at = Some ''2024-05-01 17:30:00'', assigned_at = Some ''2024-05-01 17:40:00'',
      seated_at = Some ''2024-05-01 17:45:00'', deleted_at = None\<rparr>"

definition carol :: entry where
  "carol =
     \<lparr>rowid = 3, name = ''Carol'', phone = ''5559999'', seats = 3, notes_col = Some [],
      status = ''ASSIGNING'', requesttime = ''2024-05-01 17:50:00'',
      requested_at = Some ''2024-05-01 17:50:00'', assigned_at = Some ''2024-05-01 18:05:00'',
      seated_at = None, deleted_at = Some ''2024-05-01 18:10:00''\<rparr>"

definition guest0 :: world where
  \<comment> \<open>A client without the admin flag, on a database with three rows.\<close>
  "guest0 =
     \<lparr>g_db = False, session = Map.empty,
      settings = [''display_mode'' \<mapsto> Some ''waitlist'', ''admin_pin_hash'' \<mapsto> Some ''plain$123456''],
      waitlist = [alice, bob, carol]\<rparr>"

definition admin0 :: world where
  \<comment> \<open>The same database, seen by a client that holds the admin flag.\<close>
  "admin0 = guest0\<lparr>session := [''is_admin'' \<mapsto> True]\<rparr>"

definition dana :: entry where
  "dana =
     \<lparr>rowid = 4, name = ''Dana'', phone = ''5550101'', seats = 2, notes_col = Some [],
      status = ''ASSIGNING'', requesttime = ''2024-05-01 17:00:00'',
      requested_at = Some ''2024-05-01 17:00:00'', assigned_at = Some ''2024-05-01 18:20:00'',
      seated_at = None, deleted_at = None\<rparr>"

definition ann :: entry where
  "ann = alice\<lparr>rowid := 5, name := ''Ann'', requesttime := ''2024-05-01 18:30:00''\<rparr>"

definition ben :: entry where
  \<comment> \<open>Requested at the same time as \<open>ann\<close>, inserted after her, and being assigned.\<close>
  "ben = dana\<lparr>rowid := 6, name := ''Ben'', requesttime := ''2024-05-01 18:30:00''\<rparr>"

definition guest1 :: world where
  "guest1 = guest0\<lparr>waitlist := [alice, bob, carol, dana]\<rparr>"

definition crowd :: world where
  \<comment> \<open>101 waiting parties, with the ids 1 to 101.\<close>
  "crowd = guest0\<lparr>waitlist := map (\<lambda>i. alice\<lparr>rowid := int i\<rparr>) [1..<102]\<rparr>"

definition fresh :: world where
  \<comment> \<open>A new database, seen by a client that holds the admin flag.\<close>
  "fresh = \<lparr>g_db = False, session = [''is_admin'' \<mapsto> True], settings = Map.empty, waitlist = []\<rparr>"

section \<open>Basic facts\<close>

lemma get_db_waitlist [simp]: "waitlist (get_db e w) = waitlist w"
  by (simp add: get_db_def)

lemma get_db_session [simp]: "session (get_db e w) = session w"
  by (simp add: get_db_def)

lemma get_db_g_db [simp]: "g_db (get_db e w)"
  by (simp add: get_db_def)

lemma get_db_open: "g_db w \<Longrightarrow> get_db e w = w"
  by (simp add: get_db_def)

lemma is_admin_get_db [simp]: "is_admin (get_db e w) = is_admin w"
  by (simp add: is_admin_def)

lemma length_update_where [simp]: "length (update_where i f rows) = length rows"
  by (simp add: update_where_def)

lemma nth_update_where:
  "n < length rows \<Longrightarrow>
   update_where i f rows ! n =
     (if rowid (rows ! n) = i \<and> deleted_at (rows ! n) = None then f (rows ! n) else rows ! n)"
  by (simp add: update_where_def)

lemma view_of_table_step:
  "table_step now (waitlist w) (waitlist (snd (view_of e now rq w)))"
proof (cases rq)
  case Home
  then show ?thesis
    by (simp add: home_def get_setting_def Let_def table_step_def)
next
  case (AddWaitlistSubmit n p nt s)
  then show ?thesis
    by (auto simp add: add_waitlist_submit_def Let_def table_step_def split: option.splits)
next
  case WaitlistAdmin
  then show ?thesis
    by (simp add: waitlist_admin_def admin_required_def Let_def table_step_def)
next
  case (WaitlistAssign i)
  then show ?thesis
    by (auto simp add: waitlist_assign_def admin_required_def Let_def table_step_def)
next
  case (WaitlistSeated i)
  then show ?thesis
    by (auto simp add: waitlist_seated_def admin_required_def Let_def table_step_def)
next
  case (WaitlistDelete i)
  then show ?thesis
    by (auto simp add: waitlist_delete_def admin_required_def Let_def table_step_def)
next
  case DisplayStart
  then show ?thesis
    by (simp add: display_start_def admin_required_def set_setting_def Let_def table_step_def)
next
  case DisplayStop
  then show ?thesis
    by (simp add: display_stop_def admin_required_def set_setting_def Let_def table_step_def)
next
  case (AdminLoginPost p n)
  then show ?thesis
    by (simp add: admin_login_post_def Let_def table_step_def split: option.splits)
next
  case AdminLogout
  then show ?thesis
    by (simp add: admin_logout_def table_step_def)
next
  case ApiWaitlist
  then show ?thesis
    by (simp add: api_waitlist_def Let_def table_step_def split: option.splits)
qed

lemma serve_table_step:
  "table_step now (waitlist w) (waitlist (snd (serve e now rq w)))"
  using view_of_table_step [of now "w\<lparr>g_db := False\<rparr>" e rq]
  by (simp add: serve_def split_beta)

lemma table_step_length: "table_step now rows rows' \<Longrightarrow> length rows \<le> length rows'"
  by (auto simp add: table_step_def)

lemma table_step_row:
  assumes "table_step now rows rows'" and "n < length rows"
  shows "rows' ! n = rows ! n \<or>
         (deleted_at (rows ! n) = None \<and>
          (rows' ! n = assign_set now (rows ! n) \<or>
           rows' ! n = seated_set now (rows ! n) \<or>
           rows' ! n = delete_set now (rows ! n)))"
  using assms by (auto simp add: table_step_def nth_update_where nth_append split: if_splits)

lemma serve_length: "length (waitlist w) \<le> length (waitlist (snd (serve e now rq w)))"
  using serve_table_step by (rule table_step_length)

lemma serve_row:
  assumes "n < length (waitlist w)"
  shows "waitlist (snd (serve e now rq w)) ! n = waitlist w ! n \<or>
         (deleted_at (waitlist w ! n) = None \<and>
          (waitlist (snd (serve e now rq w)) ! n = assign_set now (waitlist w ! n) \<or>
           waitlist (snd (serve e now rq w)) ! n = seated_set now (waitlist w ! n) \<or>
           waitlist (snd (serve e now rq w)) ! n = delete_set now (waitlist w ! n)))"
  using serve_table_step assms by (rule table_step_row)

lemma serve_deleted_row:
  assumes "n < length (waitlist w)" and "deleted_at (waitlist w ! n) \<noteq> None"
  shows "waitlist (snd (serve e now rq w)) ! n = waitlist w ! n"
  using serve_row [OF assms(1), of e now rq] assms(2) by auto

lemma run_length: "length (waitlist w) \<le> length (waitlist (run e steps w))"
proof (induction steps arbitrary: w)
  case Nil
  show ?case by simp
next
  case (Cons step steps)
  obtain now cookie rq where step: "step = (now, cookie, rq)" by (cases step)
  let ?w0 = "w\<lparr>session := cookie\<rparr>"
  have "length (waitlist w) \<le> length (waitlist (snd (serve e now rq ?w0)))"
    using serve_length [of ?w0 e now rq] by simp
  also have "\<dots> \<le> length (waitlist (run e steps (snd (serve e now rq ?w0))))"
    by (rule Cons.IH)
  finally show ?case by (simp add: step)
qed

lemma run_deleted_row:
  assumes "n < length (waitlist w)" and "deleted_at (waitlist w ! n) \<noteq> None"
  shows "waitlist (run e steps w) ! n = waitlist w ! n"
  using assms
proof (induction steps arbitrary: w)
  case Nil
  show ?case by simp
next
  case (Cons step steps)
  obtain now cookie rq where step: "step = (now, cookie, rq)" by (cases step)
  let ?w0 = "w\<lparr>session := cookie\<rparr>"
  let ?w1 = "snd (serve e now rq ?w0)"
  have same: "waitlist ?w1 ! n = waitlist w ! n"
    using serve_deleted_row [of n ?w0 e now rq] Cons.prems by simp
  have len: "n < length (waitlist ?w1)"
    using Cons.prems(1) serve_length [of ?w0 e now rq] by simp
  have "waitlist (run e steps ?w1) ! n = waitlist ?w1 ! n"
    using len Cons.prems(2) same by (intro Cons.IH) simp_all
  then show ?case by (simp add: step same)
qed

lemma serve_seated_at:
  assumes "n < length (waitlist w)" and "seated_at (waitlist w ! n) = Some t"
  shows "seated_at (waitlist (snd (serve e now rq w)) ! n) = Some t"
  using serve_row [OF assms(1), of e now rq] assms(2)
  by (auto simp add: assign_set_def seated_set_def delete_set_def)

lemma run_seated_at:
  assumes "n < length (waitlist w)" and "seated_at (waitlist w ! n) = Some t"
  shows "seated_at (waitlist (run e steps w) ! n) = Some t"
  using assms
proof (induction steps arbitrary: w)
  case Nil
  then show ?case by simp
next
  case (Cons step steps)
  obtain now cookie rq where step: "step = (now, cookie, rq)" by (cases step)
  let ?w0 = "w\<lparr>session := cookie\<rparr>"
  let ?w1 = "snd (serve e now rq ?w0)"
  have keep: "seated_at (waitlist ?w1 ! n) = Some t"
    using serve_seated_at [of n ?w0 t e now rq] Cons.prems by simp
  have len: "n < length (waitlist ?w1)"
    using Cons.prems(1) serve_length [of ?w0 e now rq] by simp
  have "seated_at (waitlist (run e steps ?w1) ! n) = Some t"
    using len keep by (rule Cons.IH)
  then show ?case by (simp add: step)
qed

lemma serve_status:
  assumes "n < length (waitlist w)"
  shows "status (waitlist (snd (serve e now rq w)) ! n) = status (waitlist w ! n) \<or>
         (deleted_at (waitlist w ! n) = None \<and>
          (status (waitlist (snd (serve e now rq w)) ! n) = ''ASSIGNING'' \<or>
           status (waitlist (snd (serve e now rq w)) ! n) = ''SEATED''))"
  using serve_row [OF assms, of e now rq]
  by (auto simp add: assign_set_def seated_set_def delete_set_def)

section \<open>Settings store\<close>

text \<open>
  C8. Settings round-trip: for every key \<open>k\<close>, value \<open>v\<close> and default \<open>d\<close>, \<open>set_setting(k, v)\<close>
  followed by \<open>get_setting(k, d)\<close> returns \<open>v\<close>, not \<open>d\<close>, whatever the table held for \<open>k\<close>
  before (nothing: an insert; a value or \<open>NULL\<close>: an overwrite). The row stored is \<open>(k, v)\<close>.
\<close>

theorem set_then_get_setting:
  "fst (get_setting e k d (set_setting e k v w)) = v \<and>
   settings (set_setting e k v w) k = Some (Some v)"
  by (simp add: get_setting_def set_setting_def Let_def get_db_open)

lemma get_db_settings_open: "g_db w \<Longrightarrow> settings (get_db e w) = settings w"
  by (simp add: get_db_open)

lemma get_db_settings_other:
  "k \<noteq> ''display_mode'' \<Longrightarrow> k \<noteq> ''admin_pin_hash'' \<Longrightarrow> settings (get_db e w) k = settings w k"
  by (simp add: get_db_def ensure_admin_pin_def ensure_display_default_def Let_def)

lemma get_db_display_mode:
  "\<not> g_db w \<Longrightarrow>
   settings (get_db e w) ''display_mode'' =
     (case settings w ''display_mode'' of None \<Rightarrow> Some (Some ''open'') | Some v \<Rightarrow> Some v)"
  by (simp add: get_db_def ensure_admin_pin_def ensure_display_default_def Let_def
      split: option.splits)

lemma get_db_admin_pin_hash:
  "\<not> g_db w \<Longrightarrow>
   settings (get_db e w) ''admin_pin_hash'' =
     (case settings w ''admin_pin_hash'' of
        None \<Rightarrow> Some (Some (seeded_hash e))
      | Some None \<Rightarrow> Some (Some (seeded_hash e))
      | Some (Some v) \<Rightarrow> if v = [] then Some (Some (seeded_hash e)) else Some (Some v))"
  by (simp add: get_db_def ensure_admin_pin_def ensure_display_default_def Let_def seeded_hash_def
      split: option.splits)

text \<open>
  C6, as the code has it, in terms of the table as it is stored before the call.
  On a connection that is already open in the request, and for every key but
  \<open>display_mode\<close> and \<open>admin_pin_hash\<close> on any connection, \<open>get_setting(key, default)\<close>
  returns the stored value whenever the row of the key holds a value that is not \<open>NULL\<close>,
  the empty string included, and the default when the key has no row or its value is
  \<open>NULL\<close>. On a new connection \<open>get_db()\<close> seeds the two well-known keys before the
  read: \<open>display_mode\<close> without a row reads as \<open>open\<close>, whatever the default (a \<open>NULL\<close> gives
  the default, any other value is returned); \<open>admin_pin_hash\<close> without a row, with
  \<open>NULL\<close> or with the empty string reads as the newly stored hash, and any other value
  is returned.
\<close>

theorem get_setting_stored_or_default:
  "((g_db w \<or> (k \<noteq> ''display_mode'' \<and> k \<noteq> ''admin_pin_hash'')) \<longrightarrow>
      (\<forall>v. settings w k = Some (Some v) \<longrightarrow> fst (get_setting e k d w) = v) \<and>
      (settings w k = None \<or> settings w k = Some None \<longrightarrow> fst (get_setting e k d w) = d)) \<and>
   (\<not> g_db w \<longrightarrow>
      (\<forall>v. settings w ''display_mode'' = Some (Some v) \<longrightarrow>
         fst (get_setting e ''display_mode'' d w) = v) \<and>
      (settings w ''display_mode'' = Some None \<longrightarrow> fst (get_setting e ''display_mode'' d w) = d) \<and>
      (settings w ''display_mode'' = None \<longrightarrow> fst (get_setting e ''display_mode'' d w) = ''open'')) \<and>
   (\<not> g_db w \<longrightarrow>
      (\<forall>v. settings w ''admin_pin_hash'' = Some (Some v) \<and> v \<noteq> [] \<longrightarrow>
         fst (get_setting e ''admin_pin_hash'' d w) = v) \<and>
      (settings w ''admin_pin_hash'' = None \<or> settings w ''admin_pin_hash'' = Some None \<or>
       settings w ''admin_pin_hash'' = Some (Some []) \<longrightarrow>
         fst (get_setting e ''admin_pin_hash'' d w) = seeded_hash e))"
proof -
  have open_or_other:
    "(\<forall>v. settings w k = Some (Some v) \<longrightarrow> fst (get_setting e k d w) = v) \<and>
     (settings w k = None \<or> settings w k = Some None \<longrightarrow> fst (get_setting e k d w) = d)"
    if "g_db w \<or> (k \<noteq> ''display_mode'' \<and> k \<noteq> ''admin_pin_hash'')"
  proof -
    from that have same: "settings (get_db e w) k = settings w k"
      by (auto simp add: get_db_settings_open get_db_settings_other)
    show ?thesis
      by (auto simp add: get_setting_def Let_def same)
  qed
  have mode:
    "(\<forall>v. settings w ''display_mode'' = Some (Some v) \<longrightarrow>
        fst (get_setting e ''display_mode'' d w) = v) \<and>
     (settings w ''display_mode'' = Some None \<longrightarrow> fst (get_setting e ''display_mode'' d w) = d) \<and>
     (settings w ''display_mode'' = None \<longrightarrow> fst (get_setting e ''display_mode'' d w) = ''open'')"
    if "\<not> g_db w"
    using that by (auto simp add: get_setting_def Let_def get_db_display_mode)
  have hash:
    "(\<forall>v. settings w ''admin_pin_hash'' = Some (Some v) \<and> v \<noteq> [] \<longrightarrow>
        fst (get_setting e ''admin_pin_hash'' d w) = v) \<and>
     (settings w ''admin_pin_hash'' = None \<or> settings w ''admin_pin_hash'' = Some None \<or>
      settings w ''admin_pin_hash'' = Some (Some []) \<longrightarrow>
        fst (get_setting e ''admin_pin_hash'' d w) = seeded_hash e)"
    if "\<not> g_db w"
    using that by (auto simp add: get_setting_def Let_def get_db_admin_pin_hash)
  from open_or_other mode hash show ?thesis by blast
qed

theorem get_setting_stored_or_default_witness:
  "\<not> g_db guest0 \<and>
   settings guest0 ''banner'' = None \<and>
   fst (get_setting env0 ''banner'' ''welcome'' guest0) = ''welcome'' \<and>
   settings guest0 ''display_mode'' = Some (Some ''waitlist'') \<and>
   fst (get_setting env0 ''display_mode'' ''open'' guest0) = ''waitlist'' \<and>
   \<not> g_db fresh \<and>
   settings fresh ''display_mode'' = None \<and>
   fst (get_setting env0 ''display_mode'' ''waitlist'' fresh) = ''open'' \<and>
   settings fresh ''admin_pin_hash'' = None \<and>
   fst (get_setting env0 ''admin_pin_hash'' [] fresh) = seeded_hash env0 \<and>
   settings guest0 ''admin_pin_hash'' = Some (Some ''plain$123456'') \<and>
   fst (get_setting env0 ''admin_pin_hash'' [] guest0) = ''plain$123456''"
proof -
  have g: "\<not> g_db guest0" "settings guest0 ''banner'' = None"
    "settings guest0 ''display_mode'' = Some (Some ''waitlist'')"
    "settings guest0 ''admin_pin_hash'' = Some (Some ''plain$123456'')"
    by (simp_all add: guest0_def)
  have f: "\<not> g_db fresh" "settings fresh ''display_mode'' = None"
    "settings fresh ''admin_pin_hash'' = None"
    by (simp_all add: fresh_def)
  from get_setting_stored_or_default [of guest0 "''banner''" env0 "''welcome''"] g
  have a: "fst (get_setting env0 ''banner'' ''welcome'' guest0) = ''welcome''"
    by simp
  from get_setting_stored_or_default [of guest0 "''banner''" env0 "''open''"] g
  have b: "fst (get_setting env0 ''display_mode'' ''open'' guest0) = ''waitlist''"
    by simp
  from get_setting_stored_or_default [of fresh "''banner''" env0 "''waitlist''"] f
  have c: "fst (get_setting env0 ''display_mode'' ''waitlist'' fresh) = ''open''"
    by simp
  from get_setting_stored_or_default [of fresh "''banner''" env0 "[]"] f
  have d: "fst (get_setting env0 ''admin_pin_hash'' [] fresh) = seeded_hash env0"
    by simp
  from get_setting_stored_or_default [of guest0 "''banner''" env0 "[]"] g
  have h: "fst (get_setting env0 ''admin_pin_hash'' [] guest0) = ''plain$123456''"
    by simp
  from g f a b c d h show ?thesis by blast
qed

text \<open>
  C6 as stated fails: with the empty string stored under a key, \<open>get_setting\<close> returns the
  empty string, not the default.
\<close>

theorem get_setting_empty_value_counterexample:
  "settings (guest0\<lparr>settings := [''banner'' \<mapsto> Some []]\<rparr>) ''banner'' = Some (Some []) \<and>
   fst (get_setting env0 ''banner'' ''welcome'' (guest0\<lparr>settings := [''banner'' \<mapsto> Some []]\<rparr>)) \<noteq> ''welcome''"
  by (simp add: get_setting_def Let_def guest0_def get_db_def ensure_admin_pin_def
      ensure_display_default_def)

section \<open>Waitlist lifecycle\<close>

lemma view_of_deleted_row:
  assumes "n < length (waitlist w)" and "deleted_at (waitlist w ! n) \<noteq> None"
  shows "waitlist (snd (view_of e now rq w)) ! n = waitlist w ! n"
  using table_step_row [OF view_of_table_step [of now w e rq] assms(1)] assms(2) by blast

lemma run_status:
  assumes "n < length (waitlist w)"
  shows "status (waitlist (run e steps w) ! n) = status (waitlist w ! n) \<or>
         status (waitlist (run e steps w) ! n) = ''ASSIGNING'' \<or>
         status (waitlist (run e steps w) ! n) = ''SEATED''"
  using assms
proof (induction steps arbitrary: w)
  case Nil
  show ?case by simp
next
  case (Cons step steps)
  obtain now cookie rq where step: "step = (now, cookie, rq)" by (cases step)
  let ?w0 = "w\<lparr>session := cookie\<rparr>"
  let ?w1 = "snd (serve e now rq ?w0)"
  have len0: "n < length (waitlist ?w0)"
    using Cons.prems by simp
  have len: "n < length (waitlist ?w1)"
    using Cons.prems serve_length [of ?w0 e now rq] by simp
  from Cons.IH [OF len] serve_status [OF len0, of e now rq]
  show ?case by (auto simp add: step)
qed

lemma serve_assign_row:
  assumes "n < length (waitlist w)" and "is_admin w" and "sqlite_int64 i"
  shows "waitlist (snd (serve e now (WaitlistAssign i) w)) ! n =
           (if rowid (waitlist w ! n) = i \<and> deleted_at (waitlist w ! n) = None
            then assign_set now (waitlist w ! n) else waitlist w ! n)"
  using assms
  by (simp add: serve_def waitlist_assign_def admin_required_def Let_def is_admin_def
      nth_update_where)

lemma serve_seated_row:
  assumes "n < length (waitlist w)" and "is_admin w" and "sqlite_int64 i"
  shows "waitlist (snd (serve e now (WaitlistSeated i) w)) ! n =
           (if rowid (waitlist w ! n) = i \<and> deleted_at (waitlist w ! n) = None
            then seated_set now (waitlist w ! n) else waitlist w ! n)"
  using assms
  by (simp add: serve_def waitlist_seated_def admin_required_def Let_def is_admin_def
      nth_update_where)

lemma serve_delete_row:
  assumes "n < length (waitlist w)" and "is_admin w" and "sqlite_int64 i"
  shows "waitlist (snd (serve e now (WaitlistDelete i) w)) ! n =
           (if rowid (waitlist w ! n) = i \<and> deleted_at (waitlist w ! n) = None
            then delete_set now (waitlist w ! n) else waitlist w ! n)"
  using assms
  by (simp add: serve_def waitlist_delete_def admin_required_def Let_def is_admin_def
      nth_update_where)

text \<open>
  C1, as the code has it. The updates carry no condition on the status, so the moves are
  not one-directional. For an entry of the table and any sequence of requests, the status
  afterwards is the status before, \<open>ASSIGNING\<close> or \<open>SEATED\<close>: nothing returns an entry to
  \<open>WAITING\<close>. The status of a deleted entry never changes. For an admin and an entry that
  is not deleted, assign sets \<open>ASSIGNING\<close> whatever the status was (also \<open>SEATED\<close>) and seat
  sets \<open>SEATED\<close> whatever it was (also \<open>WAITING\<close>).
\<close>

theorem status_after_requests:
  assumes "n < length (waitlist w)"
  shows "(status (waitlist (run e steps w) ! n) = status (waitlist w ! n) \<or>
          status (waitlist (run e steps w) ! n) = ''ASSIGNING'' \<or>
          status (waitlist (run e steps w) ! n) = ''SEATED'') \<and>
         (deleted_at (waitlist w ! n) \<noteq> None \<longrightarrow>
            status (waitlist (run e steps w) ! n) = status (waitlist w ! n)) \<and>
         (is_admin w \<and> sqlite_int64 (rowid (waitlist w ! n)) \<and> deleted_at (waitlist w ! n) = None \<longrightarrow>
            status (waitlist (snd (serve e now (WaitlistAssign (rowid (waitlist w ! n))) w)) ! n)
              = ''ASSIGNING'' \<and>
            status (waitlist (snd (serve e now (WaitlistSeated (rowid (waitlist w ! n))) w)) ! n)
              = ''SEATED'')"
proof (intro conjI impI)
  show "status (waitlist (run e steps w) ! n) = status (waitlist w ! n) \<or>
        status (waitlist (run e steps w) ! n) = ''ASSIGNING'' \<or>
        status (waitlist (run e steps w) ! n) = ''SEATED''"
    using assms by (rule run_status)
next
  assume "deleted_at (waitlist w ! n) \<noteq> None"
  with assms show "status (waitlist (run e steps w) ! n) = status (waitlist w ! n)"
    by (simp add: run_deleted_row)
next
  assume a: "is_admin w \<and> sqlite_int64 (rowid (waitlist w ! n)) \<and> deleted_at (waitlist w ! n) = None"
  then show "status (waitlist (snd (serve e now (WaitlistAssign (rowid (waitlist w ! n))) w)) ! n)
              = ''ASSIGNING''"
    using assms by (simp add: serve_assign_row assign_set_def)
  from a show "status (waitlist (snd (serve e now (WaitlistSeated (rowid (waitlist w ! n))) w)) ! n)
              = ''SEATED''"
    using assms by (simp add: serve_seated_row seated_set_def)
qed

lemma admin0_facts:
  "is_admin admin0" "length (waitlist admin0) = 3"
  "waitlist admin0 ! 0 = alice" "waitlist admin0 ! 1 = bob" "waitlist admin0 ! Suc 0 = bob"
  "waitlist admin0 ! 2 = carol"
  by (simp_all add: admin0_def guest0_def is_admin_def)

theorem status_after_requests_witness:
  "(1::nat) < length (waitlist admin0) \<and> is_admin admin0 \<and> sqlite_int64 (rowid (waitlist admin0 ! 1)) \<and>
   deleted_at (waitlist admin0 ! 1) = None \<and> status (waitlist admin0 ! 1) = ''SEATED'' \<and>
   status (waitlist (snd (serve env0 ''2024-05-01 19:00:00'' (WaitlistAssign 2) admin0)) ! 1) = ''ASSIGNING''"
proof -
  have h: "(1::nat) < length (waitlist admin0)"
    by (simp add: admin0_facts)
  have g: "is_admin admin0 \<and> sqlite_int64 (rowid (waitlist admin0 ! 1)) \<and>
           deleted_at (waitlist admin0 ! 1) = None"
    by (simp add: admin0_facts bob_def sqlite_int64_def)
  have r: "rowid (waitlist admin0 ! 1) = 2" "status (waitlist admin0 ! 1) = ''SEATED''"
    by (simp_all add: admin0_facts bob_def)
  from status_after_requests [OF h, of env0 "[]" "''2024-05-01 19:00:00''"] g r h
  show ?thesis by simp
qed

text \<open>
  C1 as stated fails: one assign moves a \<open>SEATED\<close> entry back to \<open>ASSIGNING\<close>.
\<close>

theorem seated_back_to_assigning_counterexample:
  "status (waitlist admin0 ! 1) = ''SEATED'' \<and>
   status (waitlist (run env0 [(''2024-05-01 19:00:00'', session admin0, WaitlistAssign 2)] admin0) ! 1) =
     ''ASSIGNING''"
  by (simp add: admin0_facts bob_def serve_assign_row sqlite_int64_def assign_set_def)

lemma panel_items_rows: "panel_items e rows = Some out \<Longrightarrow> map row out = rows"
proof (induction rows arbitrary: out)
  case Nil
  then show ?case by simp
next
  case (Cons r rows)
  then show ?case
    by (auto simp add: panel_of_def Let_def split: option.splits)
qed

lemma set_order_by [simp]: "set (order_by e view table sel) = set sel"
  by (simp add: order_by_def)

lemma mset_order_by [simp]: "mset (order_by e view table sel) = mset sel"
  by (simp add: order_by_def)

lemma length_order_by [simp]: "length (order_by e view table sel) = length sel"
  by (simp add: order_by_def)

lemma sorted_order_by:
  "sorted (map (\<lambda>r. datetime e (requesttime r)) (order_by e view table sel))"
  unfolding order_by_def by (rule sorted_sort_key)

lemma active_query_take:
  "active_query e view rows = take 100 (order_by e view rows (filter is_active rows))"
proof -
  have "is_active = (\<lambda>r. (status r = ''WAITING'' \<or> status r = ''ASSIGNING'') \<and> deleted_at r = None)"
    by (rule ext) (simp add: is_active_def)
  then show ?thesis by (simp add: active_query_def)
qed

lemma set_active_query:
  "set (active_query e view rows) \<subseteq>
     {r \<in> set rows. (status r = ''WAITING'' \<or> status r = ''ASSIGNING'') \<and> deleted_at r = None}"
proof -
  have "set (active_query e view rows) \<subseteq> set (order_by e view rows (filter is_active rows))"
    unfolding active_query_take by (rule set_take_subset)
  then show ?thesis by (auto simp add: is_active_def)
qed

lemma set_all_query: "set (all_query e rows) = {r \<in> set rows. deleted_at r = None}"
  by (auto simp add: all_query_def)

lemma rows_of_api_waitlist:
  "rows_of (fst (api_waitlist e w)) =
     (case panel_items e (active_query e ''api_waitlist'' (waitlist w)) of
        None \<Rightarrow> []
      | Some out \<Rightarrow> active_query e ''api_waitlist'' (waitlist w))"
  by (simp add: api_waitlist_def Let_def panel_items_rows split: option.splits)

lemma rows_of_home:
  "set (rows_of (fst (home e w))) \<subseteq> set (active_query e ''home'' (waitlist w))"
  by (simp add: home_def get_setting_def Let_def)

lemma rows_of_waitlist_admin:
  "set (rows_of (fst (waitlist_admin e w))) \<subseteq> set (all_query e (waitlist w))"
  by (simp add: waitlist_admin_def admin_required_def Let_def)

lemma rows_of_view_of:
  "set (rows_of (fst (view_of e now rq w))) \<subseteq> {r \<in> set (waitlist w). deleted_at r = None}"
proof (cases rq)
  case Home
  then show ?thesis
    using rows_of_home [of e w] set_active_query [of e "''home''" "waitlist w"] by auto
next
  case (AddWaitlistSubmit n p nt s)
  then show ?thesis
    by (simp add: add_waitlist_submit_def Let_def split: option.splits)
next
  case WaitlistAdmin
  then show ?thesis using rows_of_waitlist_admin [of e w] set_all_query [of e "waitlist w"] by auto
next
  case (WaitlistAssign i)
  then show ?thesis by (simp add: waitlist_assign_def admin_required_def Let_def)
next
  case (WaitlistSeated i)
  then show ?thesis by (simp add: waitlist_seated_def admin_required_def Let_def)
next
  case (WaitlistDelete i)
  then show ?thesis by (simp add: waitlist_delete_def admin_required_def Let_def)
next
  case DisplayStart
  then show ?thesis by (simp add: display_start_def admin_required_def)
next
  case DisplayStop
  then show ?thesis by (simp add: display_stop_def admin_required_def)
next
  case (AdminLoginPost p n)
  then show ?thesis by (simp add: admin_login_post_def Let_def split: option.splits)
next
  case AdminLogout
  then show ?thesis by (simp add: admin_logout_def)
next
  case ApiWaitlist
  then show ?thesis
    using rows_of_api_waitlist [of e w] set_active_query [of e "''api_waitlist''" "waitlist w"]
    by (auto split: option.splits)
qed

lemma rows_of_serve:
  "set (rows_of (fst (serve e now rq w))) \<subseteq> {r \<in> set (waitlist w). deleted_at r = None}"
  using rows_of_view_of [of e now rq "w\<lparr>g_db := False\<rparr>"]
  by (simp add: serve_def split_beta)

text \<open>
  C3. Once \<open>deleted_at\<close> of an entry is set (an admin's delete sets it on every entry of that
  id that is not deleted yet), assign, seat and delete, on its id or on any other, leave
  the row as it is in every column, \<open>deleted_at\<close> included; so does every sequence of
  requests, of whatever clients. No response shows the row: not the home page, not the
  JSON panel, not the admin list.
\<close>

theorem deleted_entry_is_frozen:
  assumes "n < length (waitlist w)" and "deleted_at (waitlist w ! n) \<noteq> None"
  shows "waitlist (snd (waitlist_assign e now i w)) ! n = waitlist w ! n \<and>
         waitlist (snd (waitlist_seated e now i w)) ! n = waitlist w ! n \<and>
         waitlist (snd (waitlist_delete e now i w)) ! n = waitlist w ! n \<and>
         waitlist (run e steps w) ! n = waitlist w ! n \<and>
         waitlist w ! n \<notin> set (rows_of (fst (serve e now rq w))) \<and>
         (\<forall>m < length (waitlist w). is_admin w \<and> sqlite_int64 i \<and> rowid (waitlist w ! m) = i \<longrightarrow>
            deleted_at (waitlist (snd (serve e now (WaitlistDelete i) w)) ! m) \<noteq> None)"
proof (intro conjI allI impI)
  show "waitlist (snd (waitlist_assign e now i w)) ! n = waitlist w ! n"
    using view_of_deleted_row [OF assms, of e now "WaitlistAssign i"] by simp
  show "waitlist (snd (waitlist_seated e now i w)) ! n = waitlist w ! n"
    using view_of_deleted_row [OF assms, of e now "WaitlistSeated i"] by simp
  show "waitlist (snd (waitlist_delete e now i w)) ! n = waitlist w ! n"
    using view_of_deleted_row [OF assms, of e now "WaitlistDelete i"] by simp
  show "waitlist (run e steps w) ! n = waitlist w ! n"
    using assms by (rule run_deleted_row)
  show "waitlist w ! n \<notin> set (rows_of (fst (serve e now rq w)))"
    using rows_of_serve [of e now rq w] assms(2) by auto
next
  fix m
  assume "m < length (waitlist w)"
    and "is_admin w \<and> sqlite_int64 i \<and> rowid (waitlist w ! m) = i"
  then show "deleted_at (waitlist (snd (serve e now (WaitlistDelete i) w)) ! m) \<noteq> None"
    by (auto simp add: serve_delete_row delete_set_def)
qed

theorem deleted_entry_is_frozen_witness:
  "(2::nat) < length (waitlist admin0) \<and> deleted_at (waitlist admin0 ! 2) \<noteq> None \<and>
   waitlist (snd (waitlist_assign env0 ''2024-05-01 19:00:00'' 3 admin0)) ! 2 = carol \<and>
   waitlist (snd (waitlist_seated env0 ''2024-05-01 19:00:00'' 3 admin0)) ! 2 = carol \<and>
   waitlist (snd (waitlist_delete env0 ''2024-05-01 19:00:00'' 3 admin0)) ! 2 = carol \<and>
   carol \<notin> set (rows_of (fst (serve env0 ''2024-05-01 19:00:00'' WaitlistAdmin admin0)))"
proof -
  have h: "(2::nat) < length (waitlist admin0)" "deleted_at (waitlist admin0 ! 2) \<noteq> None"
    by (simp_all add: admin0_facts carol_def)
  from deleted_entry_is_frozen [OF h, of env0 "''2024-05-01 19:00:00''" 3 "[]" WaitlistAdmin] h
  show ?thesis by (simp add: admin0_facts)
qed

lemma seated_at_seated_twice:
  "map seated_at (update_where i (seated_set t2) (update_where i (seated_set t1) rows)) =
   map seated_at (update_where i (seated_set t1) rows)"
  by (simp add: update_where_def seated_set_def split: option.splits)

lemma waitlist_seated_twice:
  "map seated_at (waitlist (snd (waitlist_seated e t2 i (snd (waitlist_seated e t1 i w))))) =
   map seated_at (waitlist (snd (waitlist_seated e t1 i w)))"
proof (cases "is_admin w \<and> sqlite_int64 i")
  case True
  then show ?thesis
    by (simp add: waitlist_seated_def admin_required_def Let_def is_admin_def
        seated_at_seated_twice)
next
  case False
  then show ?thesis
    by (auto simp add: waitlist_seated_def admin_required_def Let_def is_admin_def)
qed

text \<open>
  C4. Seating is idempotent on \<open>seated_at\<close>. A second seat call, whenever it is made, leaves
  the column \<open>seated_at\<close> of the whole table as the first call left it. The first call, made
  by an admin on an entry that is not deleted, sets \<open>seated_at\<close> to the time of the call if
  it was \<open>NULL\<close> and keeps it otherwise. A \<open>seated_at\<close> that is set keeps its value through
  every sequence of requests.
\<close>

theorem seated_at_first_write_wins:
  "map seated_at (waitlist (snd (waitlist_seated e t2 i (snd (waitlist_seated e t1 i w))))) =
     map seated_at (waitlist (snd (waitlist_seated e t1 i w))) \<and>
   (n < length (waitlist w) \<and> is_admin w \<and> sqlite_int64 i \<and> rowid (waitlist w ! n) = i \<and>
    deleted_at (waitlist w ! n) = None \<longrightarrow>
      seated_at (waitlist (snd (waitlist_seated e t1 i w)) ! n) =
        (case seated_at (waitlist w ! n) of None \<Rightarrow> Some t1 | Some t \<Rightarrow> Some t) \<and>
      status (waitlist (snd (waitlist_seated e t1 i w)) ! n) = ''SEATED'') \<and>
   (n < length (waitlist w) \<and> seated_at (waitlist w ! n) = Some t \<longrightarrow>
      seated_at (waitlist (run e steps w) ! n) = Some t)"
proof (intro conjI impI)
  show "map seated_at (waitlist (snd (waitlist_seated e t2 i (snd (waitlist_seated e t1 i w))))) =
        map seated_at (waitlist (snd (waitlist_seated e t1 i w)))"
    by (rule waitlist_seated_twice)
next
  assume a: "n < length (waitlist w) \<and> is_admin w \<and> sqlite_int64 i \<and> rowid (waitlist w ! n) = i \<and>
             deleted_at (waitlist w ! n) = None"
  then have r: "waitlist (snd (waitlist_seated e t1 i w)) ! n = seated_set t1 (waitlist w ! n)"
    by (simp add: waitlist_seated_def admin_required_def Let_def nth_update_where)
  show "seated_at (waitlist (snd (waitlist_seated e t1 i w)) ! n) =
        (case seated_at (waitlist w ! n) of None \<Rightarrow> Some t1 | Some t \<Rightarrow> Some t)"
    by (simp add: r seated_set_def)
  show "status (waitlist (snd (waitlist_seated e t1 i w)) ! n) = ''SEATED''"
    by (simp add: r seated_set_def)
next
  assume "n < length (waitlist w) \<and> seated_at (waitlist w ! n) = Some t"
  then show "seated_at (waitlist (run e steps w) ! n) = Some t"
    by (simp add: run_seated_at)
qed

theorem seated_at_first_write_wins_witness:
  "(0::nat) < length (waitlist admin0) \<and> is_admin admin0 \<and> sqlite_int64 1 \<and>
   rowid (waitlist admin0 ! 0) = 1 \<and> deleted_at (waitlist admin0 ! 0) = None \<and>
   seated_at (waitlist admin0 ! 0) = None \<and>
   seated_at (waitlist (snd (waitlist_seated env0 ''2024-05-01 19:00:00'' 1 admin0)) ! 0) =
     Some ''2024-05-01 19:00:00'' \<and>
   map seated_at (waitlist (snd (waitlist_seated env0 ''2024-05-01 19:30:00'' 1
     (snd (waitlist_seated env0 ''2024-05-01 19:00:00'' 1 admin0))))) =
     [Some ''2024-05-01 19:00:00'', Some ''2024-05-01 17:45:00'', None] \<and>
   seated_at (waitlist admin0 ! 1) = Some ''2024-05-01 17:45:00'' \<and>
   seated_at (waitlist (run env0 [(''2024-05-01 19:00:00'', session admin0, WaitlistSeated 2)] admin0) ! 1) =
     Some ''2024-05-01 17:45:00''"
proof -
  have h: "(0::nat) < length (waitlist admin0) \<and> is_admin admin0 \<and> sqlite_int64 1 \<and>
           rowid (waitlist admin0 ! 0) = 1 \<and> deleted_at (waitlist admin0 ! 0) = None"
    by (simp add: admin0_facts alice_def sqlite_int64_def)
  have s: "seated_at (waitlist admin0 ! 0) = None"
    by (simp add: admin0_facts alice_def)
  have once: "map seated_at (waitlist (snd (waitlist_seated env0 ''2024-05-01 19:00:00'' 1 admin0))) =
              [Some ''2024-05-01 19:00:00'', Some ''2024-05-01 17:45:00'', None]"
    by (simp add: waitlist_seated_def admin_required_def Let_def is_admin_def sqlite_int64_def
        update_where_def seated_set_def admin0_def guest0_def alice_def bob_def carol_def)
  have g: "(1::nat) < length (waitlist admin0) \<and>
           seated_at (waitlist admin0 ! 1) = Some ''2024-05-01 17:45:00''"
    by (simp add: admin0_facts bob_def)
  from seated_at_first_write_wins [of env0 "''2024-05-01 19:30:00''" 1 "''2024-05-01 19:00:00''"
      admin0 0] h s once
  have a: "seated_at (waitlist (snd (waitlist_seated env0 ''2024-05-01 19:00:00'' 1 admin0)) ! 0) =
             Some ''2024-05-01 19:00:00'' \<and>
           map seated_at (waitlist (snd (waitlist_seated env0 ''2024-05-01 19:30:00'' 1
             (snd (waitlist_seated env0 ''2024-05-01 19:00:00'' 1 admin0))))) =
             [Some ''2024-05-01 19:00:00'', Some ''2024-05-01 17:45:00'', None]"
    by simp
  from seated_at_first_write_wins [of env0 "''2024-05-01 19:30:00''" 1 "''2024-05-01 19:00:00''"
      admin0 1 "''2024-05-01 17:45:00''" "[(''2024-05-01 19:00:00'', session admin0, WaitlistSeated 2)]"] g
  have b: "seated_at (waitlist (run env0 [(''2024-05-01 19:00:00'', session admin0, WaitlistSeated 2)] admin0) ! 1) =
             Some ''2024-05-01 17:45:00''"
    by blast
  from h s a g b show ?thesis by blast
qed

section \<open>Active lists\<close>

lemma sorted_active_query:
  "sorted (map (\<lambda>r. datetime e (requesttime r)) (active_query e view rows))"
proof -
  let ?key = "\<lambda>r. datetime e (requesttime r)"
  let ?all = "order_by e view rows (filter is_active rows)"
  have "sorted (map ?key ?all)" by (rule sorted_order_by)
  then have "sorted (take 100 (map ?key ?all))" by (rule sorted_wrt_take)
  then show ?thesis by (simp add: active_query_take take_map)
qed

lemma rows_of_home_eq:
  "rows_of (fst (home e w)) =
     (if fst (get_setting e ''display_mode'' ''open'' w) = ''waitlist''
      then active_query e ''home'' (waitlist w) else [])"
  by (simp add: home_def get_setting_def Let_def)

text \<open>
  C7. The rows of the home page and of the JSON panel are rows of the table with
  \<open>deleted_at\<close> unset and status \<open>WAITING\<close> or \<open>ASSIGNING\<close>, in ascending order of
  \<open>datetime(requesttime)\<close>, the request time parsed as a timestamp by SQLite.
\<close>

theorem active_lists_filtered_and_ordered:
  assumes "rows = rows_of (fst (home e w)) \<or> rows = rows_of (fst (api_waitlist e w))"
  shows "(\<forall>r \<in> set rows. r \<in> set (waitlist w) \<and> deleted_at r = None \<and>
            (status r = ''WAITING'' \<or> status r = ''ASSIGNING'')) \<and>
         sorted (map (\<lambda>r. datetime e (requesttime r)) rows)"
proof -
  have "rows = [] \<or> (\<exists>view. rows = active_query e view (waitlist w))"
    using assms
    by (cases "fst (get_setting e ''display_mode'' ''open'' w) = ''waitlist''";
        cases "panel_items e (active_query e ''api_waitlist'' (waitlist w))")
      (auto simp add: rows_of_home_eq rows_of_api_waitlist)
  then show ?thesis
  proof
    assume "rows = []"
    then show ?thesis by simp
  next
    assume "\<exists>view. rows = active_query e view (waitlist w)"
    then obtain view where "rows = active_query e view (waitlist w)" ..
    then show ?thesis
      using set_active_query [of e view "waitlist w"] sorted_active_query [of e view "waitlist w"]
      by auto
  qed
qed

lemma active_query_guest1: "active_query env0 ''home'' (waitlist guest1) = [dana, alice]"
  by (simp add: active_query_def order_by_def guest1_def env0_def alice_def bob_def carol_def
      dana_def)

text \<open>
  Two active entries with the same request time: with the ranks of \<open>env0\<close> the one being
  assigned comes first, although it was inserted last.
\<close>

lemma active_query_tie: "active_query env0 ''home'' [ann, ben] = [ben, ann]"
  by (simp add: active_query_def order_by_def env0_def ann_def ben_def alice_def dana_def)

lemma home_guest1: "rows_of (fst (home env0 guest1)) = [dana, alice]"
  by (simp add: rows_of_home_eq active_query_guest1)
    (simp add: get_setting_def get_db_def guest1_def guest0_def ensure_admin_pin_def
      ensure_display_default_def)

theorem active_lists_filtered_and_ordered_witness:
  "rows_of (fst (home env0 guest1)) = [dana, alice] \<and>
   deleted_at dana = None \<and> status dana = ''ASSIGNING'' \<and>
   deleted_at alice = None \<and> status alice = ''WAITING'' \<and>
   sorted (map (\<lambda>r. datetime env0 (requesttime r)) [dana, alice])"
proof -
  have "[dana, alice] = rows_of (fst (home env0 guest1)) \<or>
        [dana, alice] = rows_of (fst (api_waitlist env0 guest1))"
    by (simp add: home_guest1)
  from active_lists_filtered_and_ordered [OF this] home_guest1
  show ?thesis by (simp add: dana_def alice_def)
qed

lemma panel_items_total:
  assumes "\<And>ts. to_et e ts \<noteq> None"
  shows "panel_items e rows \<noteq> None"
proof (induction rows)
  case Nil
  show ?case by simp
next
  case (Cons r rows)
  have "utc_str_to_et (to_et e) (requesttime r) \<noteq> None"
    using assms by (simp add: utc_str_to_et_def)
  then show ?case
    using Cons.IH by (auto simp add: panel_of_def Let_def split: option.splits)
qed

lemma first_hundred_take:
  assumes "mset full = mset (filter is_active table)"
    and "sorted (map (\<lambda>r. datetime e (requesttime r)) full)"
  shows "first_hundred e table (take 100 full)"
proof -
  let ?key = "\<lambda>r. datetime e (requesttime r)"
  have split: "mset (filter is_active table) = mset (take 100 full) + mset (drop 100 full)"
    using assms(1) by (simp flip: mset_append)
  have len: "length full = length (filter is_active table)"
    using assms(1) by (rule mset_eq_length)
  have "sorted (map ?key (take 100 full @ drop 100 full))"
    using assms(2) by simp
  then have order: "\<forall>s \<in> set (take 100 full). \<forall>r \<in> set (drop 100 full). ?key s \<le> ?key r"
    by (simp add: sorted_append del: append_take_drop_id)
  have rest: "mset (filter is_active table) - mset (take 100 full) = mset (drop 100 full)"
    unfolding split by (rule add_diff_cancel_left')
  have sub: "mset (take 100 full) \<subseteq># mset (filter is_active table)"
    unfolding split by (rule mset_subset_eq_add_left)
  have shown: "length (take 100 full) = min 100 (length (filter is_active table))"
    by (simp add: len min.commute)
  have left_out: "\<forall>r \<in># mset (filter is_active table) - mset (take 100 full).
      \<forall>s \<in> set (take 100 full). ?key s \<le> ?key r"
    unfolding rest using order by auto
  from shown sub left_out show ?thesis
    unfolding first_hundred_def by blast
qed

lemma first_hundred_active_query: "first_hundred e table (active_query e view table)"
  unfolding active_query_take
  by (rule first_hundred_take) (simp_all add: sorted_order_by)

text \<open>
  C9. The home page and the JSON panel show at most 100 rows. When the home page shows
  the waitlist, and when the panel answers, the rows are 100 of the active entries (all
  of them when they are fewer), and no active entry that is left out comes before a
  shown one in the order of \<open>datetime(requesttime)\<close>: with more than 100 active entries,
  those beyond the first 100 in that order are left out. Which of several entries with
  one request time is left out at the cut depends on SQLite's plan and is not fixed.
  (The panel shows no row at all when \<open>utc_str_to_et\<close> raises on a row.)
\<close>

theorem active_lists_capped:
  "length (rows_of (fst (home e w))) \<le> 100 \<and>
   length (rows_of (fst (api_waitlist e w))) \<le> 100 \<and>
   (fst (get_setting e ''display_mode'' ''open'' w) = ''waitlist'' \<longrightarrow>
      first_hundred e (waitlist w) (rows_of (fst (home e w)))) \<and>
   (fst (api_waitlist e w) \<noteq> Inl ValueError \<longrightarrow>
      first_hundred e (waitlist w) (rows_of (fst (api_waitlist e w)))) \<and>
   (100 < length (filter is_active (waitlist w)) \<and> first_hundred e (waitlist w) shown \<longrightarrow>
      length shown = 100 \<and> mset (filter is_active (waitlist w)) - mset shown \<noteq> {#})"
proof (intro conjI impI)
  show "length (rows_of (fst (home e w))) \<le> 100"
    by (simp add: rows_of_home_eq active_query_take)
  show "length (rows_of (fst (api_waitlist e w))) \<le> 100"
    by (simp add: rows_of_api_waitlist active_query_take split: option.splits)
next
  assume "fst (get_setting e ''display_mode'' ''open'' w) = ''waitlist''"
  then show "first_hundred e (waitlist w) (rows_of (fst (home e w)))"
    by (simp add: rows_of_home_eq first_hundred_active_query)
next
  assume "fst (api_waitlist e w) \<noteq> Inl ValueError"
  then have "panel_items e (active_query e ''api_waitlist'' (waitlist w)) \<noteq> None"
    by (auto simp add: api_waitlist_def Let_def split: option.splits)
  then show "first_hundred e (waitlist w) (rows_of (fst (api_waitlist e w)))"
    by (auto simp add: rows_of_api_waitlist first_hundred_active_query)
next
  assume a: "100 < length (filter is_active (waitlist w)) \<and> first_hundred e (waitlist w) shown"
  then show len: "length shown = 100"
    by (simp add: first_hundred_def)
  from a have "mset shown \<subseteq># mset (filter is_active (waitlist w))"
    by (simp add: first_hundred_def)
  then have "size (mset (filter is_active (waitlist w)) - mset shown) =
             length (filter is_active (waitlist w)) - length shown"
    by (simp add: size_Diff_submset del: mset_filter)
  with a len show "mset (filter is_active (waitlist w)) - mset shown \<noteq> {#}"
    by auto
qed

lemma crowd_active: "length (filter is_active (waitlist crowd)) = 101"
  by (simp add: crowd_def alice_def is_active_def)

lemma crowd_mode: "fst (get_setting env0 ''display_mode'' ''open'' crowd) = ''waitlist''"
  by (simp add: get_setting_def get_db_def crowd_def guest0_def ensure_admin_pin_def
      ensure_display_default_def)

lemma crowd_panel: "fst (api_waitlist env0 crowd) \<noteq> Inl ValueError"
proof -
  have "panel_items env0 (active_query env0 ''api_waitlist'' (waitlist (get_db env0 crowd))) \<noteq> None"
    by (rule panel_items_total) (simp add: env0_def)
  then show ?thesis
    by (auto simp add: api_waitlist_def Let_def)
qed

theorem active_lists_capped_witness:
  "fst (get_setting env0 ''display_mode'' ''open'' crowd) = ''waitlist'' \<and>
   fst (api_waitlist env0 crowd) \<noteq> Inl ValueError \<and>
   length (filter is_active (waitlist crowd)) = 101 \<and>
   first_hundred env0 (waitlist crowd) (rows_of (fst (home env0 crowd))) \<and>
   first_hundred env0 (waitlist crowd) (rows_of (fst (api_waitlist env0 crowd))) \<and>
   length (rows_of (fst (home env0 crowd))) = 100 \<and>
   length (rows_of (fst (api_waitlist env0 crowd))) = 100 \<and>
   mset (filter is_active (waitlist crowd)) - mset (rows_of (fst (api_waitlist env0 crowd))) \<noteq> {#}"
proof -
  have n: "(100::nat) < length (filter is_active (waitlist crowd))"
    by (simp add: crowd_active)
  from active_lists_capped [of env0 crowd "rows_of (fst (home env0 crowd))"] crowd_mode crowd_panel n
  have h: "first_hundred env0 (waitlist crowd) (rows_of (fst (home env0 crowd))) \<and>
           first_hundred env0 (waitlist crowd) (rows_of (fst (api_waitlist env0 crowd))) \<and>
           length (rows_of (fst (home env0 crowd))) = 100"
    by blast
  from active_lists_capped [of env0 crowd "rows_of (fst (api_waitlist env0 crowd))"] h n
  have a: "length (rows_of (fst (api_waitlist env0 crowd))) = 100 \<and>
           mset (filter is_active (waitlist crowd)) -
             mset (rows_of (fst (api_waitlist env0 crowd))) \<noteq> {#}"
    by blast
  from crowd_mode crowd_panel crowd_active h a show ?thesis by blast
qed

section \<open>Auth gate\<close>

lemma is_admin_set_setting [simp]: "is_admin (set_setting e k v w) = is_admin w"
  by (simp add: set_setting_def Let_def is_admin_def)

lemma view_of_keeps_admin:
  assumes "is_admin w" and "rq \<noteq> AdminLogout"
  shows "is_admin (snd (view_of e now rq w))"
proof (cases rq)
  case Home
  then show ?thesis using assms(1) by (simp add: home_def get_setting_def Let_def)
next
  case (AddWaitlistSubmit n p nt s)
  then show ?thesis
    using assms(1)
    by (simp add: add_waitlist_submit_def Let_def is_admin_def split: option.splits)
next
  case WaitlistAdmin
  then show ?thesis using assms(1) by (simp add: waitlist_admin_def admin_required_def Let_def)
next
  case (WaitlistAssign i)
  then show ?thesis
    using assms(1) by (simp add: waitlist_assign_def admin_required_def Let_def is_admin_def)
next
  case (WaitlistSeated i)
  then show ?thesis
    using assms(1) by (simp add: waitlist_seated_def admin_required_def Let_def is_admin_def)
next
  case (WaitlistDelete i)
  then show ?thesis
    using assms(1) by (simp add: waitlist_delete_def admin_required_def Let_def is_admin_def)
next
  case DisplayStart
  then show ?thesis using assms(1) by (simp add: display_start_def admin_required_def)
next
  case DisplayStop
  then show ?thesis using assms(1) by (simp add: display_stop_def admin_required_def)
next
  case (AdminLoginPost p n)
  then show ?thesis
    using assms(1) by (auto simp add: admin_login_post_def Let_def is_admin_def split: option.splits)
next
  case AdminLogout
  then show ?thesis using assms(2) by simp
next
  case ApiWaitlist
  then show ?thesis using assms(1) by (simp add: api_waitlist_def Let_def split: option.splits)
qed

lemma serve_keeps_admin:
  assumes "is_admin w" and "rq \<noteq> AdminLogout"
  shows "is_admin (snd (serve e now rq w))"
proof -
  have "is_admin (w\<lparr>g_db := False\<rparr>)"
    using assms(1) by (simp add: is_admin_def)
  then have "is_admin (snd (view_of e now rq (w\<lparr>g_db := False\<rparr>)))"
    using assms(2) by (rule view_of_keeps_admin)
  then show ?thesis by (simp add: serve_def split_beta is_admin_def)
qed

text \<open>
  C10. A login that fails (no stored hash matches the stripped PIN) leaves the session as
  it was, so a wrong PIN does not take the admin flag from a session that holds it.
  A session that holds the flag keeps it through every request but logout, and logout
  removes it.
\<close>

theorem failed_login_keeps_session:
  "((\<forall>h. settings (get_db e w) ''admin_pin_hash'' = Some (Some h) \<longrightarrow>
         \<not> check_password_hash e h (strip (or_empty f_pin))) \<longrightarrow>
      session (snd (admin_login_post e f_pin f_next w)) = session w \<and>
      is_admin (snd (admin_login_post e f_pin f_next w)) = is_admin w) \<and>
   (is_admin w \<and> rq \<noteq> AdminLogout \<longrightarrow> is_admin (snd (serve e now rq w))) \<and>
   \<not> is_admin (snd (serve e now AdminLogout w))"
proof (intro conjI impI)
  assume fail: "\<forall>h. settings (get_db e w) ''admin_pin_hash'' = Some (Some h) \<longrightarrow>
                 \<not> check_password_hash e h (strip (or_empty f_pin))"
  then show s: "session (snd (admin_login_post e f_pin f_next w)) = session w"
    by (simp add: admin_login_post_def Let_def split: option.splits)
  then show "is_admin (snd (admin_login_post e f_pin f_next w)) = is_admin w"
    by (simp add: is_admin_def)
next
  assume "is_admin w \<and> rq \<noteq> AdminLogout"
  then show "is_admin (snd (serve e now rq w))"
    by (simp add: serve_keeps_admin)
next
  show "\<not> is_admin (snd (serve e now AdminLogout w))"
    by (simp add: serve_def admin_logout_def is_admin_def)
qed

lemma admin0_hash:
  "settings (get_db env0 admin0) ''admin_pin_hash'' = Some (Some ''plain$123456'')"
  by (simp add: get_db_def admin0_def guest0_def ensure_admin_pin_def ensure_display_default_def)

theorem failed_login_keeps_session_witness:
  "settings (get_db env0 admin0) ''admin_pin_hash'' = Some (Some ''plain$123456'') \<and>
   \<not> check_password_hash env0 ''plain$123456'' (strip (or_empty (Some ''0000''))) \<and>
   is_admin admin0 \<and>
   session (snd (admin_login_post env0 (Some ''0000'') None admin0)) = session admin0 \<and>
   is_admin (snd (admin_login_post env0 (Some ''0000'') None admin0)) \<and>
   is_admin (snd (serve env0 ''2024-05-01 19:00:00'' (AdminLoginPost (Some ''0000'') None) admin0))"
proof -
  have c: "\<not> check_password_hash env0 ''plain$123456'' (strip (or_empty (Some ''0000'')))"
    by (simp add: env0_def strip_def or_empty_def isspace_def)
  have f: "\<forall>h. settings (get_db env0 admin0) ''admin_pin_hash'' = Some (Some h) \<longrightarrow>
             \<not> check_password_hash env0 h (strip (or_empty (Some ''0000'')))"
    using c by (simp add: admin0_hash)
  have a: "is_admin admin0 \<and> AdminLoginPost (Some ''0000'') None \<noteq> AdminLogout"
    by (simp add: admin0_facts)
  from failed_login_keeps_session [of env0 admin0 "Some ''0000''" None
      "AdminLoginPost (Some ''0000'') None" "''2024-05-01 19:00:00''"] f a c admin0_hash
  show ?thesis by simp
qed

section \<open>Creating an entry\<close>

lemma decimal_digit_isdigit: "decimal_digit c \<Longrightarrow> isdigit c"
  by (simp add: decimal_digit_def isdigit_def Let_def)

lemma add_waitlist_submit_rejects:
  assumes "strip (or_empty f_name) = [] \<or> normalize_phone (or_empty f_phone) = [] \<or>
           seats_of e f_seats \<le> 0"
  shows "add_waitlist_submit e now f_name f_phone f_notes f_seats w =
           (Inr (Redirect ''add_waitlist_form''), w)"
  using assms by (auto simp add: add_waitlist_submit_def seats_of_def Let_def)

lemma add_waitlist_submit_accepts:
  assumes "strip (or_empty f_name) \<noteq> []" and "normalize_phone (or_empty f_phone) \<noteq> []"
    and "0 < seats_of e f_seats"
  shows "add_waitlist_submit e now f_name f_phone f_notes f_seats w =
           (if \<not> sqlite_int64 (seats_of e f_seats) then (Inl OverflowError, get_db e w)
            else case next_rowid (waitlist w) of
                   None \<Rightarrow> (Inl OperationalError, get_db e w)
                 | Some i \<Rightarrow>
                     (Inr (Redirect ''home''),
                      (get_db e w)\<lparr>waitlist := waitlist w @
                        [new_entry i (strip (or_empty f_name)) (normalize_phone (or_empty f_phone))
                           (seats_of e f_seats) (strip (or_empty f_notes)) now]\<rparr>))"
  using assms
  by (simp add: add_waitlist_submit_def seats_of_def [symmetric] new_entry_def Let_def
      split: option.splits)

lemma add_waitlist_submit_inserts_iff:
  "(\<exists>r. waitlist (snd (add_waitlist_submit e now f_name f_phone f_notes f_seats w)) = waitlist w @ [r]) \<longleftrightarrow>
   strip (or_empty f_name) \<noteq> [] \<and> normalize_phone (or_empty f_phone) \<noteq> [] \<and>
   0 < seats_of e f_seats \<and> seats_of e f_seats < 2 ^ 63 \<and> next_rowid (waitlist w) \<noteq> None"
proof (cases "strip (or_empty f_name) \<noteq> [] \<and> normalize_phone (or_empty f_phone) \<noteq> [] \<and>
              0 < seats_of e f_seats")
  case True
  then show ?thesis
    by (auto simp add: add_waitlist_submit_accepts sqlite_int64_def split: option.splits)
next
  case False
  then have "add_waitlist_submit e now f_name f_phone f_notes f_seats w =
             (Inr (Redirect ''add_waitlist_form''), w)"
    by (intro add_waitlist_submit_rejects) auto
  with False show ?thesis by auto
qed

lemma add_waitlist_submit_not_inserted:
  assumes "\<not> (\<exists>r. waitlist (snd (add_waitlist_submit e now f_name f_phone f_notes f_seats w)) = waitlist w @ [r])"
  shows "waitlist (snd (add_waitlist_submit e now f_name f_phone f_notes f_seats w)) = waitlist w"
proof (cases "strip (or_empty f_name) \<noteq> [] \<and> normalize_phone (or_empty f_phone) \<noteq> [] \<and>
              0 < seats_of e f_seats")
  case True
  then show ?thesis
    using assms by (auto simp add: add_waitlist_submit_accepts split: option.splits if_splits)
next
  case False
  then have "add_waitlist_submit e now f_name f_phone f_notes f_seats w =
             (Inr (Redirect ''add_waitlist_form''), w)"
    by (intro add_waitlist_submit_rejects) auto
  then show ?thesis by simp
qed

lemma add_waitlist_submit_home:
  assumes "fst (add_waitlist_submit e now f_name f_phone f_notes f_seats w) = Inr (Redirect ''home'')"
  shows "\<exists>i. waitlist (snd (add_waitlist_submit e now f_name f_phone f_notes f_seats w)) =
           waitlist w @
             [new_entry i (strip (or_empty f_name)) (normalize_phone (or_empty f_phone))
                (seats_of e f_seats) (strip (or_empty f_notes)) now] \<and>
         strip (or_empty f_name) \<noteq> [] \<and> normalize_phone (or_empty f_phone) \<noteq> [] \<and>
         0 < seats_of e f_seats"
proof (cases "strip (or_empty f_name) \<noteq> [] \<and> normalize_phone (or_empty f_phone) \<noteq> [] \<and>
              0 < seats_of e f_seats")
  case True
  then show ?thesis
    using assms by (auto simp add: add_waitlist_submit_accepts split: option.splits if_splits)
next
  case False
  then have "add_waitlist_submit e now f_name f_phone f_notes f_seats w =
             (Inr (Redirect ''add_waitlist_form''), w)"
    by (intro add_waitlist_submit_rejects) auto
  with assms show ?thesis by simp
qed

text \<open>
  C5, as the code has it. When an entry is created, its stored phone is the submitted
  phone with every character removed that is neither a digit of \<open>str.isdigit\<close> nor \<open>+\<close>;
  the decimal digits and the \<open>+\<close> signs of the input are all kept, in their order. The
  stored string is not empty and holds only such digits and \<open>+\<close> signs; a \<open>+\<close> may stand
  anywhere in it, any number of times.
\<close>

theorem stored_phone_is_filtered_input:
  assumes "fst (add_waitlist_submit e now f_name f_phone f_notes f_seats w) = Inr (Redirect ''home'')"
  shows "phone (last (waitlist (snd (add_waitlist_submit e now f_name f_phone f_notes f_seats w)))) =
           filter (\<lambda>ch. isdigit ch \<or> ch = CHR ''+'') (or_empty f_phone) \<and>
         filter (\<lambda>ch. decimal_digit ch \<or> ch = CHR ''+'')
             (phone (last (waitlist (snd (add_waitlist_submit e now f_name f_phone f_notes f_seats w))))) =
           filter (\<lambda>ch. decimal_digit ch \<or> ch = CHR ''+'') (or_empty f_phone) \<and>
         (\<forall>ch \<in> set (phone (last (waitlist (snd (add_waitlist_submit e now f_name f_phone f_notes f_seats w))))).
            isdigit ch \<or> ch = CHR ''+'') \<and>
         phone (last (waitlist (snd (add_waitlist_submit e now f_name f_phone f_notes f_seats w)))) \<noteq> []"
proof -
  let ?w' = "snd (add_waitlist_submit e now f_name f_phone f_notes f_seats w)"
  from add_waitlist_submit_home [OF assms]
  obtain i where rows: "waitlist ?w' = waitlist w @
      [new_entry i (strip (or_empty f_name)) (normalize_phone (or_empty f_phone))
         (seats_of e f_seats) (strip (or_empty f_notes)) now]"
    and ne: "normalize_phone (or_empty f_phone) \<noteq> []"
    by blast
  have p: "phone (last (waitlist ?w')) = normalize_phone (or_empty f_phone)"
    by (simp add: rows new_entry_def)
  have keep: "filter (\<lambda>ch. decimal_digit ch \<or> ch = CHR ''+'') (normalize_phone s) =
              filter (\<lambda>ch. decimal_digit ch \<or> ch = CHR ''+'') s" for s
    unfolding normalize_phone_def filter_filter
    by (rule filter_cong) (auto dest: decimal_digit_isdigit)
  show ?thesis
    using ne by (auto simp add: p keep) (auto simp add: normalize_phone_def)
qed

theorem stored_phone_is_filtered_input_witness:
  "fst (add_waitlist_submit env0 ''2024-05-01 19:00:00'' (Some ''Eve'') (Some ''+1 (555) 010-0199'')
       (Some ''booth'') (Some ''2'') guest0) = Inr (Redirect ''home'') \<and>
   phone (last (waitlist (snd (add_waitlist_submit env0 ''2024-05-01 19:00:00'' (Some ''Eve'')
       (Some ''+1 (555) 010-0199'') (Some ''booth'') (Some ''2'') guest0)))) = ''+15550100199''"
proof -
  have ok: "fst (add_waitlist_submit env0 ''2024-05-01 19:00:00'' (Some ''Eve'')
       (Some ''+1 (555) 010-0199'') (Some ''booth'') (Some ''2'') guest0) = Inr (Redirect ''home'')"
    by (simp add: add_waitlist_submit_def Let_def strip_def or_empty_def isspace_def
        normalize_phone_def isdigit_def int_str_def int_space_def decimal_digit_def env0_def
        sqlite_int64_def next_rowid_def guest0_def alice_def bob_def carol_def)
  have f: "filter (\<lambda>ch. isdigit ch \<or> ch = CHR ''+'') (or_empty (Some ''+1 (555) 010-0199'')) =
           ''+15550100199''"
    by (simp add: or_empty_def isdigit_def)
  from stored_phone_is_filtered_input [OF ok] ok f show ?thesis by simp
qed

text \<open>
  C5 as stated fails: the phone \<open>1+2\<close> is stored as it is, with a \<open>+\<close> that is not leading.
\<close>

theorem stored_phone_inner_plus_counterexample:
  "fst (add_waitlist_submit env0 ''2024-05-01 19:00:00'' (Some ''Eve'') (Some ''1+2'') None
       (Some ''2'') guest0) = Inr (Redirect ''home'') \<and>
   phone (last (waitlist (snd (add_waitlist_submit env0 ''2024-05-01 19:00:00'' (Some ''Eve'')
       (Some ''1+2'') None (Some ''2'') guest0)))) = ''1+2'' \<and>
   \<not> spec_phone_format ''1+2''"
  by (simp add: add_waitlist_submit_def Let_def strip_def or_empty_def isspace_def
      normalize_phone_def isdigit_def int_str_def int_space_def decimal_digit_def env0_def
      sqlite_int64_def next_rowid_def guest0_def alice_def bob_def carol_def
      spec_phone_format_def)

text \<open>
  C2 fails on the code at one kind of input. With a name and a phone that pass and
  \<open>seats = "9223372036854775808"\<close>, \<open>int(seats)\<close> is \<open>2^63 > 0\<close>, so the validation passes;
  the \<open>INSERT\<close> then raises \<open>OverflowError\<close> when \<open>sqlite3\<close> binds the value, and no row is
  inserted.
\<close>

theorem add_waitlist_submit_seats_overflow:
  "strip (or_empty (Some ''Eve'')) = ''Eve'' \<and>
   normalize_phone (or_empty (Some ''555-0100'')) = ''5550100'' \<and>
   int_str (int_max_str_digits env0) ''9223372036854775808'' = Some (2 ^ 63) \<and>
   fst (add_waitlist_submit env0 ''2024-05-01 19:00:00'' (Some ''Eve'') (Some ''555-0100'') None
       (Some ''9223372036854775808'') guest0) = Inl OverflowError \<and>
   waitlist (snd (add_waitlist_submit env0 ''2024-05-01 19:00:00'' (Some ''Eve'') (Some ''555-0100'')
       None (Some ''9223372036854775808'') guest0)) = waitlist guest0"
  by (simp add: add_waitlist_submit_def Let_def strip_def or_empty_def isspace_def
      normalize_phone_def isdigit_def int_str_def int_space_def decimal_digit_def env0_def
      sqlite_int64_def)

section \<open>Further facts\<close>

text \<open>
  The round-trip of a setting also holds when the value is read in a later request, on a
  new connection, for every key and value but an empty value under \<open>admin_pin_hash\<close>, which
  \<open>get_db\<close> replaces by a new hash.
\<close>

lemma setting_survives_next_request:
  assumes "k \<noteq> ''admin_pin_hash'' \<or> v \<noteq> []"
  shows "fst (get_setting e k d ((set_setting e k v w)\<lparr>g_db := False\<rparr>)) = v"
  using assms
  by (auto simp add: get_setting_def set_setting_def get_db_def Let_def ensure_admin_pin_def
      ensure_display_default_def)

text \<open>
  An entry that is created has status \<open>WAITING\<close>, \<open>requested_at\<close> equal to \<open>requesttime\<close>
  (the time of the request), a positive number of seats and a name that is not empty.
\<close>

lemma created_entry_fields:
  assumes "fst (add_waitlist_submit e now f_name f_phone f_notes f_seats w) = Inr (Redirect ''home'')"
  shows "status (last (waitlist (snd (add_waitlist_submit e now f_name f_phone f_notes f_seats w)))) =
           ''WAITING'' \<and>
         requesttime (last (waitlist (snd (add_waitlist_submit e now f_name f_phone f_notes f_seats w)))) =
           now \<and>
         requested_at (last (waitlist (snd (add_waitlist_submit e now f_name f_phone f_notes f_seats w)))) =
           Some now \<and>
         0 < seats (last (waitlist (snd (add_waitlist_submit e now f_name f_phone f_notes f_seats w)))) \<and>
         name (last (waitlist (snd (add_waitlist_submit e now f_name f_phone f_notes f_seats w)))) \<noteq> []"
  using add_waitlist_submit_home [OF assms] by (auto simp add: new_entry_def)

text \<open>
  The scenarios of the specification: create, assign, seat and seat again; an empty name.
\<close>

lemma scenario_lifecycle:
  "waitlist (run env0
     [(''2024-05-01 18:00:00'', Map.empty,
         AddWaitlistSubmit (Some ''Alice'') (Some ''555-1234'') (Some []) (Some ''2'')),
      (''2024-05-01 18:10:00'', session fresh, WaitlistAssign 1),
      (''2024-05-01 18:20:00'', session fresh, WaitlistSeated 1),
      (''2024-05-01 18:30:00'', session fresh, WaitlistSeated 1)] fresh) =
   [\<lparr>rowid = 1, name = ''Alice'', phone = ''5551234'', seats = 2, notes_col = Some [],
     status = ''SEATED'', requesttime = ''2024-05-01 18:00:00'',
     requested_at = Some ''2024-05-01 18:00:00'', assigned_at = Some ''2024-05-01 18:10:00'',
     seated_at = Some ''2024-05-01 18:20:00'', deleted_at = None\<rparr>]"
  by (simp add: fresh_def env0_def serve_def add_waitlist_submit_def waitlist_assign_def
      waitlist_seated_def admin_required_def is_admin_def get_db_def Let_def strip_def
      or_empty_def isspace_def normalize_phone_def isdigit_def int_str_def int_space_def
      decimal_digit_def sqlite_int64_def next_rowid_def update_where_def assign_set_def
      seated_set_def ensure_admin_pin_def ensure_display_default_def)

lemma scenario_empty_name:
  "add_waitlist_submit env0 ''2024-05-01 18:00:00'' (Some []) (Some ''555'') (Some []) (Some ''2'') fresh =
     (Inr (Redirect ''add_waitlist_form''), fresh)"
  by (simp add: add_waitlist_submit_def Let_def strip_def or_empty_def)

end
